theory Spec2Isabelle
  imports Main "HOL-Library.Word"
begin

unbundle bit_operations_syntax

section \<open>Common types\<close>

text \<open>
  Pointers are 32-bit words (the kernel runs on 80x86); the null pointer is the word 0.
  A thread is known by the identity of its \<^verbatim>\<open>struct thread\<close>, a natural number here.
\<close>

type_synonym addr = "32 word"
type_synonym byte = "8 word"
type_synonym thread = nat

abbreviation NULL :: addr where
  "NULL \<equiv> 0"

text \<open>
  How a call into the kernel ends when it does not return to its caller:
  \<^verbatim>\<open>PANIC\<close> and a failed \<^verbatim>\<open>ASSERT\<close> halt the kernel, \<^verbatim>\<open>thread_exit\<close> ends the
  calling process only, \<^verbatim>\<open>shutdown_power_off\<close> switches the machine off, and a load or
  store at an address that is not present traps.
\<close>

datatype stop =
    Panic string
  | ProcessExit "32 word"
  | PowerOff
  | PageFault addr
  | Hang

datatype 'a outcome = Returned 'a | Stopped stop

section \<open>The frame table (src/vm/frame.c)\<close>

subsection \<open>Data\<close>

text \<open>
  \<^verbatim>\<open>struct fte\<close> and \<^verbatim>\<open>struct fte_reference\<close> are declared in vm/frame.h, which is not
  among the sources; the fields are the ones frame.c reads and writes. The list elements
  \<^verbatim>\<open>celem\<close> and \<^verbatim>\<open>refelem\<close> are the positions in the lists below. Only assignment of
  0 and 1, decrement and comparison with 0 are applied to \<^verbatim>\<open>refcnt\<close>, a mathematical
  integer here.
\<close>

record fte_reference =
  process :: thread
  vaddr :: addr

record fte =
  paddr :: addr
  reference_list :: "fte_reference list"
  refcnt :: int

text \<open>
  Modelled from the spec: the circular list of lib/kernel/clist.h, which is not among the
  sources. The spec calls it the circular sequence of all live entries plus a single movable
  scan cursor (the hand); a new entry is inserted at the tail; when the removed entry is the
  hand, the hand moves to the next live entry, or to an empty-table sentinel when the table
  becomes empty. An entry is known by its position in \<open>items\<close>; the circular order starts at
  position \<open>hand\<close> and wraps around. The empty list is the sentinel.
\<close>

record 'a clist =
  items :: "'a list"
  hand :: nat

definition clist_init :: "'a clist" where
  "clist_init = \<lparr>items = [], hand = 0\<rparr>"

definition clist_hand :: "'a clist \<Rightarrow> nat option" where
  "clist_hand c = (if items c = [] then None else Some (hand c))"

definition clist_push_back :: "'a clist \<Rightarrow> 'a \<Rightarrow> 'a clist" where
  "clist_push_back c x =
     \<lparr>items = items c @ [x], hand = (if items c = [] then 0 else hand c)\<rparr>"

definition clist_remove :: "'a clist \<Rightarrow> nat \<Rightarrow> 'a clist" where
  "clist_remove c i =
     \<lparr>items = take i (items c) @ drop (Suc i) (items c),
      hand = (if i < hand c then hand c - 1
              else if i = hand c \<and> Suc i = length (items c) then 0
              else hand c)\<rparr>"

text \<open>The positions of the circular sequence in the order of a walk that starts at the hand.\<close>

definition clist_walk :: "'a clist \<Rightarrow> nat list" where
  "clist_walk c = [hand c ..< length (items c)] @ [0 ..< min (hand c) (length (items c))]"

text \<open>
  Modelled from the spec: the physical page source of threads/palloc.c, which is not among
  the sources (\<open>acquire_zeroed_page(pool) \<rightarrow> page-or-none\<close>, \<open>release_page(page)\<close>). A pool
  is the list of its free pages; the page handed out is the first of the list, and a released
  page goes back to the front. Releasing the null pointer does nothing.
\<close>

definition palloc_get_page :: "addr list \<Rightarrow> addr \<times> addr list" where
  "palloc_get_page pool = (case pool of [] \<Rightarrow> (NULL, []) | p # ps \<Rightarrow> (p, ps))"

definition palloc_free_page :: "addr \<Rightarrow> addr list \<Rightarrow> addr list" where
  "palloc_free_page p pool = (if p = NULL then pool else p # pool)"

text \<open>
  The state frame.c works on: the static table \<^verbatim>\<open>ft\<close> and the user pool of the page
  allocator. The contents of the frames are not part of it (the \<^verbatim>\<open>memset\<close> of
  \<^verbatim>\<open>frame_alloc\<close> changes no field of the table).
\<close>

record frames =
  ft :: "fte clist"
  user_pool :: "addr list"

text \<open>
  What \<^verbatim>\<open>frame_alloc\<close> gets from its surroundings: whether each of the two \<^verbatim>\<open>malloc\<close>
  calls succeeds, the running thread and its \<^verbatim>\<open>is_process\<close> flag.
\<close>

record alloc_env =
  fte_malloc :: bool
  ref_malloc :: bool
  cur :: thread
  cur_is_process :: bool

subsection \<open>Operations\<close>

definition frame_init :: "frames \<Rightarrow> frames" where
  "frame_init s = s\<lparr>ft := clist_init\<rparr>"

definition init_fte :: fte where
  "init_fte = \<lparr>paddr = NULL, reference_list = [], refcnt = 0\<rparr>"

text \<open>An assignment through an entry pointer: the entry at position \<open>i\<close> is changed in place.\<close>

definition fte_assign :: "nat \<Rightarrow> (fte \<Rightarrow> fte) \<Rightarrow> frames \<Rightarrow> frames" where
  "fte_assign i g s = s\<lparr>ft := (ft s)\<lparr>items := (items (ft s))[i := g (items (ft s) ! i)]\<rparr>\<rparr>"

definition frame_alloc :: "addr \<Rightarrow> alloc_env \<Rightarrow> frames \<Rightarrow> (addr \<times> frames) outcome" where
  "frame_alloc va env s =
     (case palloc_get_page (user_pool s) of (fr, pool1) \<Rightarrow>
      let s1 = s\<lparr>user_pool := pool1\<rparr> in
      if fr = NULL then Stopped (Panic ''frame_alloc(): Out of frame.'')
      else if \<not> fte_malloc env
        then Returned (NULL, s1\<lparr>user_pool := palloc_free_page fr (user_pool s1)\<rparr>)
      else
        let i = length (items (ft s1));
            s2 = s1\<lparr>ft := clist_push_back (ft s1) init_fte\<rparr>;
            s3 = fte_assign i (\<lambda>f. f\<lparr>paddr := fr\<rparr>) s2
        in
        if \<not> ref_malloc env
          then Returned (NULL, s3\<lparr>user_pool := palloc_free_page fr (user_pool s3)\<rparr>)
        else if \<not> cur_is_process env
          then Stopped (Panic ''assertion `fte_ref->process->is_process' failed.'')
        else
          let fte_ref = \<lparr>process = cur env, vaddr = va\<rparr>;
              s4 = fte_assign i (\<lambda>f. f\<lparr>reference_list := reference_list f @ [fte_ref]\<rparr>) s3;
              s5 = fte_assign i (\<lambda>f. f\<lparr>refcnt := 1\<rparr>) s4
          in Returned (fr, s5))"

text \<open>
  The search of \<^verbatim>\<open>frame_free\<close>: the entry at the hand first, then every entry after it
  in circular order until the walk is back at the hand. The result is the position of the first
  entry whose \<^verbatim>\<open>paddr\<close> is \<open>fr\<close>.
\<close>

definition frame_find :: "fte clist \<Rightarrow> addr \<Rightarrow> nat option" where
  "frame_find c fr =
     (case clist_hand c of
        None \<Rightarrow> None
      | Some h \<Rightarrow> find (\<lambda>i. paddr (items c ! i) = fr) (clist_walk c))"

text \<open>The inner loop of \<^verbatim>\<open>frame_free\<close>: the first reference of thread \<open>t\<close> is unlinked.\<close>

fun remove_reference :: "thread \<Rightarrow> fte_reference list \<Rightarrow> fte_reference list" where
  "remove_reference t [] = []"
| "remove_reference t (r # rs) = (if process r = t then rs else r # remove_reference t rs)"

definition frame_free :: "addr \<Rightarrow> thread \<Rightarrow> frames \<Rightarrow> frames" where
  "frame_free fr t s =
     (case frame_find (ft s) fr of
        None \<Rightarrow> s
      | Some i \<Rightarrow>
          let s1 = fte_assign i (\<lambda>p. p\<lparr>refcnt := refcnt p - 1\<rparr>) s;
              s2 = fte_assign i
                     (\<lambda>p. p\<lparr>reference_list := remove_reference t (reference_list p)\<rparr>) s1
          in
          if refcnt (items (ft s2) ! i) = 0
            then s2\<lparr>user_pool := palloc_free_page fr (user_pool s2),
                    ft := clist_remove (ft s2) i\<rparr>
          else s2)"

subsection \<open>The invariant of the data model\<close>

definition fte_counted :: "fte \<Rightarrow> bool" where
  "fte_counted f = (refcnt f = int (length (reference_list f)) \<and> refcnt f \<noteq> 0)"

definition table_inv :: "frames \<Rightarrow> bool" where
  "table_inv s = list_all fte_counted (items (ft s))"

definition clist_wf :: "'a clist \<Rightarrow> bool" where
  "clist_wf c = (if items c = [] then hand c = 0 else hand c < length (items c))"

definition holds_reference :: "thread \<Rightarrow> fte \<Rightarrow> bool" where
  "holds_reference t f = list_ex (\<lambda>r. process r = t) (reference_list f)"

subsection \<open>Concrete tables\<close>

text \<open>A table used as a concrete input: one frame of thread 1, and one more page in the
  pool.\<close>

definition one_frame :: frames where
  "one_frame =
     \<lparr>ft = \<lparr>items = [\<lparr>paddr = 0xC0271000,
                        reference_list = [\<lparr>process = 1, vaddr = 0x08048000\<rparr>],
                        refcnt = 1\<rparr>],
             hand = 0\<rparr>,
      user_pool = [0xC0272000]\<rparr>"

definition all_succeed :: "thread \<Rightarrow> alloc_env" where
  "all_succeed t = \<lparr>fte_malloc = True, ref_malloc = True, cur = t, cur_is_process = True\<rparr>"

definition reference_fails :: "thread \<Rightarrow> alloc_env" where
  "reference_fails t = \<lparr>fte_malloc = True, ref_malloc = False, cur = t, cur_is_process = True\<rparr>"

section \<open>User memory and the system calls (src/userprog/syscall.c)\<close>

subsection \<open>Addresses and pages\<close>

text \<open>
  Modelled from the spec: threads/vaddr.h is not among the sources. The spec speaks of pages,
  of the in-page offset of an address and of the user/kernel split address; the numbers are
  those of the 80x86 this kernel runs on: pages of 4096 bytes, the offset in the low 12 bits,
  the kernel from 3 GB up.
\<close>

definition PGSIZE :: "32 word" where
  "PGSIZE = 4096"

definition PGMASK :: "32 word" where
  "PGMASK = 0xFFF"

definition PHYS_BASE :: addr where
  "PHYS_BASE = 0xC0000000"

definition pg_ofs :: "addr \<Rightarrow> 32 word" where
  "pg_ofs va = va AND PGMASK"

definition pg_round_down :: "addr \<Rightarrow> addr" where
  "pg_round_down va = va AND NOT PGMASK"

text \<open>
  The machine a system call runs on, and the collaborators syscall.c calls and does not
  define. \<open>mem\<close> is what a load in kernel mode finds at an address, under the page directory
  of the running process: a byte, or nothing where no page is present (the load traps).
  \<open>pagedir\<close> maps the base of a mapped user page to the kernel address of its frame.
  \<open>fresh_page\<close> is the content of a page as \<^verbatim>\<open>palloc_get_page (0)\<close> hands it out (not
  zeroed). The other fields are the answers of the process and file system services.
\<close>

record machine =
  mem :: "addr \<Rightarrow> byte option"
  pagedir :: "addr \<Rightarrow> addr option"
  fresh_page :: "nat \<Rightarrow> byte"
  process_execute :: "byte list \<Rightarrow> 32 word"
  get_thread_by_tid :: "32 word \<Rightarrow> bool"
  process_wait :: "32 word \<Rightarrow> 32 word"
  filesys_create :: "byte list \<Rightarrow> 32 word \<Rightarrow> bool"
  filesys_remove :: "byte list \<Rightarrow> bool"
  filesys_open :: "byte list \<Rightarrow> addr"
  calloc_succeeds :: bool

text \<open>
  Modelled from the spec: \<^verbatim>\<open>user_vtop\<close> is declared outside syscall.c and is not among
  the sources. The spec: given a user virtual address, return the corresponding
  kernel-accessible address if that page is currently mapped and the address is strictly below
  the user/kernel split address; otherwise signal an invalid pointer (the null result).
\<close>

definition user_vtop :: "machine \<Rightarrow> addr \<Rightarrow> addr" where
  "user_vtop m uaddr =
     (if uaddr < PHYS_BASE
      then (case pagedir m (pg_round_down uaddr) of
              None \<Rightarrow> NULL
            | Some kpage \<Rightarrow> kpage + pg_ofs uaddr)
      else NULL)"

subsection \<open>Runs: what a call does, and how it ends\<close>

text \<open>
  What is observed of a call: the calls of the translator, the loads from memory, the pages
  taken from and given back to the kernel pool, and the output.
\<close>

datatype event =
    Translate addr
  | Load addr
  | PallocGet addr
  | PallocFree addr
  | Putbuf "byte list"
  | Printf string
  | ExitMessage "32 word"

type_synonym 'a run = "event list \<times> 'a outcome"

definition ret :: "'a \<Rightarrow> 'a run" where
  "ret x = ([], Returned x)"

definition stop_with :: "stop \<Rightarrow> 'a run" where
  "stop_with st = ([], Stopped st)"

definition emit :: "event \<Rightarrow> 'a run \<Rightarrow> 'a run" where
  "emit e r = (e # fst r, snd r)"

definition seq :: "'a run \<Rightarrow> ('a \<Rightarrow> 'b run) \<Rightarrow> 'b run" where
  "seq r k =
     (case snd r of
        Stopped st \<Rightarrow> (fst r, Stopped st)
      | Returned x \<Rightarrow> (fst r @ fst (k x), snd (k x)))"

definition load :: "machine \<Rightarrow> addr \<Rightarrow> byte run" where
  "load m a =
     (case mem m a of
        None \<Rightarrow> ([Load a], Stopped (PageFault a))
      | Some c \<Rightarrow> ([Load a], Returned c))"

text \<open>A 32-bit load, as in \<^verbatim>\<open>*esp\<close>: four bytes, the lowest first.\<close>

definition load32 :: "machine \<Rightarrow> addr \<Rightarrow> (32 word) run" where
  "load32 m a =
     seq (load m a) (\<lambda>b0.
     seq (load m (a + 1)) (\<lambda>b1.
     seq (load m (a + 2)) (\<lambda>b2.
     seq (load m (a + 3)) (\<lambda>b3.
       ret (ucast b0 OR push_bit 8 (ucast b1) OR push_bit 16 (ucast b2)
            OR push_bit 24 (ucast b3))))))"

text \<open>
  The kernel memory a call writes to, from the address of its scratch page on: the address and
  the bytes by index. The first \<^verbatim>\<open>PGSIZE\<close> bytes are the page; the bytes from index
  \<^verbatim>\<open>PGSIZE\<close> on are the kernel memory that lies behind it. Nothing in \<^verbatim>\<open>strlbond\<close>
  or \<^verbatim>\<open>strlcpy\<close> keeps an index inside the page: a store at an index past the end of the
  page is done like any other, behind the page, and the run goes on. A store through the null
  pointer traps. The bytes a run stores are kept apart from the bytes it loads (\<open>mem\<close>): the
  sources of the copies are user pages, and the destination is a page of the kernel pool.
\<close>

record buffer =
  base :: addr
  bytes :: "nat \<Rightarrow> byte"

definition store :: "buffer \<Rightarrow> nat \<Rightarrow> byte \<Rightarrow> buffer run" where
  "store dst i c =
     (if base dst = NULL then stop_with (PageFault (of_nat i))
      else ret (dst\<lparr>bytes := (bytes dst)(i := c)\<rparr>))"

text \<open>The string in a buffer: the bytes before the first NUL of the page.\<close>

function cstring_from :: "buffer \<Rightarrow> nat \<Rightarrow> byte list" where
  "cstring_from b i =
     (if i < unat PGSIZE \<and> bytes b i \<noteq> 0 then bytes b i # cstring_from b (Suc i) else [])"
  by pat_completeness auto
termination
  by (relation "measure (\<lambda>(b, i). unat PGSIZE - i)") auto

definition cstring :: "buffer \<Rightarrow> byte list" where
  "cstring b = cstring_from b 0"

subsection \<open>The C library (lib/string.c)\<close>

text \<open>
  Modelled from the spec: lib/string.c is not among the sources. \<^verbatim>\<open>memcpy\<close> copies
  \<open>n\<close> bytes, lowest address first. \<^verbatim>\<open>strlen\<close> counts the bytes before the first NUL;
  a scan that has gone through the whole address space without finding one never ends.
  \<^verbatim>\<open>strlcpy\<close> measures the source with \<^verbatim>\<open>strlen\<close>, copies at most \<open>size - 1\<close> bytes
  of it and terminates the copy, when \<open>size\<close> is not zero. The destination is the buffer
  \<open>dst\<close> from index \<open>d\<close> on.
\<close>

fun memcpy :: "machine \<Rightarrow> buffer \<Rightarrow> nat \<Rightarrow> addr \<Rightarrow> nat \<Rightarrow> buffer run" where
  "memcpy m dst d s 0 = ret dst"
| "memcpy m dst d s (Suc n) =
     seq (load m s) (\<lambda>c.
     seq (store dst d c) (\<lambda>dst'.
       memcpy m dst' (Suc d) (s + 1) n))"

function strlen_from :: "machine \<Rightarrow> addr \<Rightarrow> nat \<Rightarrow> nat run" where
  "strlen_from m s k =
     (if k < 2 ^ 32 then
        (case mem m (s + of_nat k) of
           None \<Rightarrow> ([Load (s + of_nat k)], Stopped (PageFault (s + of_nat k)))
         | Some c \<Rightarrow>
             if c = 0 then ([Load (s + of_nat k)], Returned k)
             else emit (Load (s + of_nat k)) (strlen_from m s (Suc k)))
      else stop_with Hang)"
  by pat_completeness auto
termination
  by (relation "measure (\<lambda>(m, s, k). 2 ^ 32 - k)") auto

definition strlen :: "machine \<Rightarrow> addr \<Rightarrow> nat run" where
  "strlen m s = strlen_from m s 0"

definition strlcpy :: "machine \<Rightarrow> buffer \<Rightarrow> nat \<Rightarrow> addr \<Rightarrow> 32 word \<Rightarrow> buffer run" where
  "strlcpy m dst d s sz =
     seq (strlen m s) (\<lambda>src_len.
       if sz > 0 then
         let dst_len = (if src_len < unat (sz - 1) then src_len else unat (sz - 1)) in
         seq (memcpy m dst d s dst_len) (\<lambda>dst'. store dst' (d + dst_len) 0)
       else ret dst)"

subsection \<open>The bounded string copier\<close>

text \<open>
  \<^verbatim>\<open>str_over_boundary\<close>: the loop over the offsets of the page of \<open>s\<close>, from the offset of
  \<open>s\<close> to the end of the page.
\<close>

function sob_scan :: "machine \<Rightarrow> addr \<Rightarrow> nat \<Rightarrow> bool run" where
  "sob_scan m page offset =
     (if offset < unat PGSIZE then
        (case mem m (page + of_nat offset) of
           None \<Rightarrow> ([Load (page + of_nat offset)], Stopped (PageFault (page + of_nat offset)))
         | Some c \<Rightarrow>
             if c = 0 then ([Load (page + of_nat offset)], Returned False)
             else emit (Load (page + of_nat offset)) (sob_scan m page (Suc offset)))
      else ret True)"
  by pat_completeness auto
termination
  by (relation "measure (\<lambda>(m, page, offset). unat PGSIZE - offset)") auto

definition str_over_boundary :: "machine \<Rightarrow> addr \<Rightarrow> bool run" where
  "str_over_boundary m s = sob_scan m (pg_round_down s) (unat (pg_ofs s))"

text \<open>
  \<^verbatim>\<open>strlbond (dst, src, size)\<close>, with \<open>sz\<close> for \<^verbatim>\<open>size\<close> (a constant of HOL). The result
  is the buffer \<open>dst\<close> after the copy.
\<close>

definition strlbond :: "machine \<Rightarrow> buffer \<Rightarrow> addr \<Rightarrow> 32 word \<Rightarrow> buffer run" where
  "strlbond m dst src sz =
     emit (Translate src)
       (let s = user_vtop m src;
            soffset = pg_ofs src
        in
        seq (str_over_boundary m s) (\<lambda>over.
        seq (if over then
               let n = min (PGSIZE - soffset) (sz - 1) in
               seq (memcpy m dst 0 s (unat n)) (\<lambda>dst1.
               seq (store dst1 (unat n) 0) (\<lambda>dst2.
                 ret (dst2, n, pg_round_down (src + PGSIZE))))
             else ret (dst, 0, s)) (\<lambda>(dst', doffset, s').
        seq (str_over_boundary m s') (\<lambda>over'.
          if over' then stop_with (Panic ''assertion `!str_over_boundary (s)' failed.'')
          else strlcpy m dst' (unat doffset) s' (sz - doffset)))))"

subsection \<open>The system calls\<close>

text \<open>
  The state the calls change: the kernel pool of the page allocator, and the fields
  \<^verbatim>\<open>lastfd\<close> and \<^verbatim>\<open>open_list\<close> of the running thread. An open file is known by the
  address of its \<^verbatim>\<open>struct file\<close>. The pool is the one syscall.c sees through its own calls
  of \<^verbatim>\<open>palloc_get_page\<close> and \<^verbatim>\<open>palloc_free_page\<close>; the pages that the process and file
  system services take for themselves are not part of it.
\<close>

record kstate =
  kernel_pool :: "addr list"
  lastfd :: "32 word"
  open_list :: "(32 word \<times> addr) list"

record intr_frame =
  esp :: addr
  eax :: "32 word"

text \<open>
  Modelled from the spec: lib/syscall-nr.h and lib/stdio.h are not among the sources. The call
  numbers are the enumerators in the order of the dispatcher's case labels, from 0; the
  console descriptor is 1.
\<close>

definition SYS_HALT :: "32 word" where "SYS_HALT = 0"
definition SYS_EXIT :: "32 word" where "SYS_EXIT = 1"
definition SYS_EXEC :: "32 word" where "SYS_EXEC = 2"
definition SYS_WAIT :: "32 word" where "SYS_WAIT = 3"
definition SYS_CREATE :: "32 word" where "SYS_CREATE = 4"
definition SYS_REMOVE :: "32 word" where "SYS_REMOVE = 5"
definition SYS_OPEN :: "32 word" where "SYS_OPEN = 6"
definition SYS_FILESIZE :: "32 word" where "SYS_FILESIZE = 7"
definition SYS_READ :: "32 word" where "SYS_READ = 8"
definition SYS_WRITE :: "32 word" where "SYS_WRITE = 9"
definition SYS_SEEK :: "32 word" where "SYS_SEEK = 10"
definition SYS_TELL :: "32 word" where "SYS_TELL = 11"
definition SYS_CLOSE :: "32 word" where "SYS_CLOSE = 12"
definition SYS_MMAP :: "32 word" where "SYS_MMAP = 13"
definition SYS_MUNMAP :: "32 word" where "SYS_MUNMAP = 14"
definition SYS_CHDIR :: "32 word" where "SYS_CHDIR = 15"
definition SYS_MKDIR :: "32 word" where "SYS_MKDIR = 16"
definition SYS_READDIR :: "32 word" where "SYS_READDIR = 17"
definition SYS_ISDIR :: "32 word" where "SYS_ISDIR = 18"
definition SYS_INUMBER :: "32 word" where "SYS_INUMBER = 19"

definition STDOUT_FILENO :: "32 word" where
  "STDOUT_FILENO = 1"

text \<open>
  The scratch page of a call: \<^verbatim>\<open>palloc_get_page (0)\<close> on the kernel pool. The result is
  not checked by the callers; with an empty pool the buffer is at the null pointer.
\<close>

definition scratch_page :: "machine \<Rightarrow> addr \<Rightarrow> buffer" where
  "scratch_page m page = \<lparr>base = page, bytes = fresh_page m\<rparr>"

definition halt :: "unit \<Rightarrow> 'a run" where
  "halt u = stop_with PowerOff"

text \<open>
  \<^verbatim>\<open>exit\<close> stores the status in the thread, prints the exit message and calls
  \<^verbatim>\<open>thread_exit\<close>, which does not return.
\<close>

definition exit :: "32 word \<Rightarrow> 'a run" where
  "exit status = ([ExitMessage status], Stopped (ProcessExit status))"

text \<open>\<^verbatim>\<open>sema_down (&child->loaded)\<close> blocks the caller until the child has loaded; the
  model goes on from there.\<close>

definition exec :: "machine \<Rightarrow> addr \<Rightarrow> kstate \<Rightarrow> (32 word \<times> kstate) run" where
  "exec m cmd st =
     (if cmd \<ge> PHYS_BASE then ret (- 1, st)
      else
        case palloc_get_page (kernel_pool st) of (cmd_line, pool1) \<Rightarrow>
        emit (PallocGet cmd_line)
          (seq (strlbond m (scratch_page m cmd_line) cmd PGSIZE) (\<lambda>buf.
             let pid = process_execute m (cstring buf) in
             emit (PallocFree cmd_line)
               (if \<not> get_thread_by_tid m pid
                then stop_with (Panic ''assertion `child' failed.'')
                else ret (pid, st\<lparr>kernel_pool := palloc_free_page cmd_line pool1\<rparr>)))))"

definition wait :: "machine \<Rightarrow> 32 word \<Rightarrow> kstate \<Rightarrow> (32 word \<times> kstate) run" where
  "wait m pid st = ret (process_wait m pid, st)"

definition create :: "machine \<Rightarrow> addr \<Rightarrow> 32 word \<Rightarrow> kstate \<Rightarrow> (bool \<times> kstate) run" where
  "create m file initial_size st =
     (if file \<ge> PHYS_BASE then ret (False, st)
      else
        case palloc_get_page (kernel_pool st) of (page, pool1) \<Rightarrow>
        emit (PallocGet page)
          (seq (strlbond m (scratch_page m page) file PGSIZE) (\<lambda>buf.
             let success = filesys_create m (cstring buf) initial_size in
             emit (PallocFree page)
               (ret (success, st\<lparr>kernel_pool := palloc_free_page page pool1\<rparr>)))))"

definition remove :: "machine \<Rightarrow> addr \<Rightarrow> kstate \<Rightarrow> (bool \<times> kstate) run" where
  "remove m file st =
     (if file \<ge> PHYS_BASE then ret (False, st)
      else
        case palloc_get_page (kernel_pool st) of (page, pool1) \<Rightarrow>
        emit (PallocGet page)
          (seq (strlbond m (scratch_page m page) file PGSIZE) (\<lambda>buf.
             let success = filesys_remove m (cstring buf) in
             emit (PallocFree page)
               (ret (success, st\<lparr>kernel_pool := palloc_free_page page pool1\<rparr>)))))"

text \<open>\<^verbatim>\<open>open\<close> of the source (\<open>open\<close> is a keyword of Isabelle).\<close>

definition sys_open :: "machine \<Rightarrow> addr \<Rightarrow> kstate \<Rightarrow> (32 word \<times> kstate) run" where
  "sys_open m file st =
     (if file \<ge> PHYS_BASE then ret (- 1, st)
      else
        case palloc_get_page (kernel_pool st) of (page, pool1) \<Rightarrow>
        emit (PallocGet page)
          (seq (strlbond m (scratch_page m page) file PGSIZE) (\<lambda>buf.
             let f = filesys_open m (cstring buf);
                 st1 = st\<lparr>kernel_pool := palloc_free_page page pool1\<rparr>
             in
             emit (PallocFree page)
               (if f = NULL then ret (- 1, st1)
                else
                  let fd = lastfd st1 + 1;
                      st2 = st1\<lparr>lastfd := fd\<rparr>
                  in
                  if \<not> calloc_succeeds m then ret (- 1, st2\<lparr>lastfd := lastfd st2 - 1\<rparr>)
                  else ret (fd, st2\<lparr>open_list := open_list st2 @ [(fd, f)]\<rparr>)))))"

definition filesize :: "32 word \<Rightarrow> kstate \<Rightarrow> (32 word \<times> kstate) run" where
  "filesize fd st = ret (0, st)"

definition read :: "32 word \<Rightarrow> addr \<Rightarrow> 32 word \<Rightarrow> kstate \<Rightarrow> (32 word \<times> kstate) run" where
  "read fd buffer sz st = (if buffer \<ge> PHYS_BASE then ret (- 1, st) else ret (0, st))"

text \<open>
  The loop of \<^verbatim>\<open>write\<close>. Each round copies from the same address \<open>ubuf\<close> (the source
  does not advance the pointer) with the bound \<^verbatim>\<open>MIN (size + 1, PGSIZE)\<close>, where
  \<open>size + 1\<close> wraps around, and counts \<^verbatim>\<open>MIN (size, PGSIZE - 1)\<close> bytes; only the
  console descriptor has them printed.
\<close>

function write_loop ::
  "machine \<Rightarrow> 32 word \<Rightarrow> buffer \<Rightarrow> addr \<Rightarrow> 32 word \<Rightarrow> 32 word \<Rightarrow> (32 word) run" where
  "write_loop m fd buf ubuf sz wrote =
     (if sz > 0 then
        seq (strlbond m buf ubuf (min (sz + 1) PGSIZE)) (\<lambda>buf'.
          if fd = STDOUT_FILENO then
            emit (Putbuf (map (bytes buf') [0 ..< unat (min sz (PGSIZE - 1))]))
              (write_loop m fd buf' ubuf (sz - min sz (PGSIZE - 1))
                 (wrote + min sz (PGSIZE - 1)))
          else
            write_loop m fd buf' ubuf (sz - min sz (PGSIZE - 1))
              (wrote + min sz (PGSIZE - 1)))
      else ret wrote)"
  by pat_completeness auto
termination
proof (relation "measure (\<lambda>(m, fd, buf, ubuf, sz, wrote). unat sz)")
  show "wf (measure (\<lambda>(m, fd, buf, ubuf, sz, wrote). unat sz))"
    by simp
next
  fix m :: machine and fd :: "32 word" and buf :: buffer and ubuf :: addr
    and sz wrote :: "32 word" and x :: buffer
  assume "0 < sz"
  then have "unat (sz - min sz (PGSIZE - 1)) < unat sz"
    by (simp add: PGSIZE_def min_def unat_sub word_le_nat_alt word_less_nat_alt)
  then show "((m, fd, x, ubuf, sz - min sz (PGSIZE - 1), wrote + min sz (PGSIZE - 1)),
              (m, fd, buf, ubuf, sz, wrote))
             \<in> measure (\<lambda>(m, fd, buf, ubuf, sz, wrote). unat sz)"
    by simp
  then show "((m, fd, x, ubuf, sz - min sz (PGSIZE - 1), wrote + min sz (PGSIZE - 1)),
              (m, fd, buf, ubuf, sz, wrote))
             \<in> measure (\<lambda>(m, fd, buf, ubuf, sz, wrote). unat sz)" .
qed

text \<open>\<^verbatim>\<open>write\<close> of the source (\<open>write\<close> is a keyword of Isabelle).\<close>

definition sys_write ::
  "machine \<Rightarrow> 32 word \<Rightarrow> addr \<Rightarrow> 32 word \<Rightarrow> kstate \<Rightarrow> (32 word \<times> kstate) run" where
  "sys_write m fd ubuf sz st =
     (if ubuf \<ge> PHYS_BASE then ret (- 1, st)
      else
        case palloc_get_page (kernel_pool st) of (page, pool1) \<Rightarrow>
        emit (PallocGet page)
          (seq (write_loop m fd (scratch_page m page) ubuf sz 0) (\<lambda>wrote.
             emit (PallocFree page)
               (ret (wrote, st\<lparr>kernel_pool := palloc_free_page page pool1\<rparr>)))))"

definition seek :: "32 word \<Rightarrow> 32 word \<Rightarrow> kstate \<Rightarrow> kstate run" where
  "seek fd position st = ret st"

definition tell :: "32 word \<Rightarrow> kstate \<Rightarrow> (32 word \<times> kstate) run" where
  "tell fd st = ret (0, st)"

definition close :: "32 word \<Rightarrow> kstate \<Rightarrow> kstate run" where
  "close fd st = ret st"

subsection \<open>The dispatcher\<close>

text \<open>
  \<open>arg m sp i\<close> is \<^verbatim>\<open>*(esp+i)\<close> for the translated stack pointer, a pointer to 32-bit
  words; the arguments of a call are loaded in the order of their positions. \<open>set_eax\<close> is
  the assignment \<^verbatim>\<open>f->eax = ...\<close> of the cases that have one; a truth value is stored as 1
  or 0.
\<close>

definition arg :: "machine \<Rightarrow> addr \<Rightarrow> nat \<Rightarrow> (32 word) run" where
  "arg m sp i = load32 m (sp + 4 * of_nat i)"

definition set_eax :: "intr_frame \<Rightarrow> (32 word \<times> kstate) run \<Rightarrow> (intr_frame \<times> kstate) run" where
  "set_eax f r = seq r (\<lambda>(v, st'). ret (f\<lparr>eax := v\<rparr>, st'))"

definition bool_word :: "bool \<Rightarrow> 32 word" where
  "bool_word b = (if b then 1 else 0)"

definition syscall_handler ::
  "machine \<Rightarrow> intr_frame \<Rightarrow> kstate \<Rightarrow> (intr_frame \<times> kstate) run" where
  "syscall_handler m f st =
     (if esp f = NULL then stop_with (Panic ''assertion `esp' failed.'')
      else if esp f \<ge> PHYS_BASE then exit (- 1)
      else
        emit (Translate (esp f))
          (let sp = user_vtop m (esp f) in
           if sp = NULL then exit (- 1)
           else
             seq (arg m sp 0) (\<lambda>syscall_num.
               if syscall_num = SYS_HALT then halt ()
               else if syscall_num = SYS_EXIT then
                 seq (arg m sp 1) (\<lambda>a1. exit a1)
               else if syscall_num = SYS_EXEC then
                 seq (arg m sp 1) (\<lambda>a1. set_eax f (exec m a1 st))
               else if syscall_num = SYS_WAIT then
                 seq (arg m sp 1) (\<lambda>a1. set_eax f (wait m a1 st))
               else if syscall_num = SYS_CREATE then
                 seq (arg m sp 1) (\<lambda>a1. seq (arg m sp 2) (\<lambda>a2.
                   set_eax f (seq (create m a1 a2 st) (\<lambda>(b, st'). ret (bool_word b, st')))))
               else if syscall_num = SYS_REMOVE then
                 seq (arg m sp 1) (\<lambda>a1.
                   set_eax f (seq (remove m a1 st) (\<lambda>(b, st'). ret (bool_word b, st'))))
               else if syscall_num = SYS_OPEN then
                 seq (arg m sp 1) (\<lambda>a1. set_eax f (sys_open m a1 st))
               else if syscall_num = SYS_FILESIZE then
                 seq (arg m sp 1) (\<lambda>a1. set_eax f (filesize a1 st))
               else if syscall_num = SYS_READ then
                 seq (arg m sp 1) (\<lambda>a1. seq (arg m sp 2) (\<lambda>a2. seq (arg m sp 3) (\<lambda>a3.
                   set_eax f (read a1 a2 a3 st))))
               else if syscall_num = SYS_WRITE then
                 seq (arg m sp 1) (\<lambda>a1. seq (arg m sp 2) (\<lambda>a2. seq (arg m sp 3) (\<lambda>a3.
                   seq (sys_write m a1 a2 a3 st) (\<lambda>(v, st'). ret (f, st')))))
               else if syscall_num = SYS_SEEK then
                 seq (arg m sp 1) (\<lambda>a1. seq (arg m sp 2) (\<lambda>a2.
                   seq (seek a1 a2 st) (\<lambda>st'. ret (f, st'))))
               else if syscall_num = SYS_TELL then
                 seq (arg m sp 1) (\<lambda>a1. set_eax f (tell a1 st))
               else if syscall_num = SYS_CLOSE then
                 seq (arg m sp 1) (\<lambda>a1. seq (close a1 st) (\<lambda>st'. ret (f, st')))
               else if syscall_num = SYS_MMAP then
                 emit (Printf ''SYS_MMAP\<newline>'') (ret (f, st))
               else if syscall_num = SYS_MUNMAP then
                 emit (Printf ''SYS_MUNMAP\<newline>'') (ret (f, st))
               else if syscall_num = SYS_CHDIR then
                 emit (Printf ''SYS_CHDIR\<newline>'') (ret (f, st))
               else if syscall_num = SYS_MKDIR then
                 emit (Printf ''SYS_MKDIR\<newline>'') (ret (f, st))
               else if syscall_num = SYS_READDIR then
                 emit (Printf ''SYS_READDIR\<newline>'') (ret (f, st))
               else if syscall_num = SYS_ISDIR then
                 emit (Printf ''SYS_ISDIR\<newline>'') (ret (f, st))
               else if syscall_num = SYS_INUMBER then
                 emit (Printf ''SYS_INUMBER\<newline>'') (ret (f, st))
               else stop_with (Panic ''Wrong System call.\<newline>''))))"

subsection \<open>The source of a copy, as the copier reads it\<close>

text \<open>
  Byte \<open>k\<close> of the source of \<^verbatim>\<open>strlbond (dst, src, size)\<close>: the bytes up to the end of the
  page of \<open>src\<close> are read at the translated address, the bytes after them at the address
  \<^verbatim>\<open>pg_round_down (src + PGSIZE)\<close>.
\<close>

definition source_byte :: "machine \<Rightarrow> addr \<Rightarrow> nat \<Rightarrow> byte option" where
  "source_byte m src k =
     (let r = unat (PGSIZE - pg_ofs src) in
      if k < r then mem m (user_vtop m src + of_nat k)
      else mem m (pg_round_down (src + PGSIZE) + of_nat (k - r)))"

text \<open>
  A source in which the copier finds no terminator: every byte from \<open>src\<close> to the end of its
  page, and every byte of the page after it, is present and is not NUL.
\<close>

definition unterminated :: "machine \<Rightarrow> addr \<Rightarrow> bool" where
  "unterminated m src =
     list_all (\<lambda>k. case source_byte m src k of None \<Rightarrow> False | Some c \<Rightarrow> c \<noteq> 0)
       [0 ..< unat (PGSIZE - pg_ofs src) + unat PGSIZE]"

subsection \<open>A concrete machine\<close>

text \<open>
  How the memory of a concrete machine is put together: RAM is seen at the kernel addresses,
  and a user address shows the byte of its page's frame, when the page directory maps the page.
\<close>

definition mmu :: "(addr \<Rightarrow> addr option) \<Rightarrow> (addr \<Rightarrow> byte option) \<Rightarrow> addr \<Rightarrow> byte option" where
  "mmu pd ram a =
     (if a < PHYS_BASE
      then (case pd (pg_round_down a) of None \<Rightarrow> None | Some kpage \<Rightarrow> ram (kpage + pg_ofs a))
      else ram a)"

text \<open>
  Four user pages are mapped: the stack page \<open>0xBFFFF000\<close> and the data pages
  \<open>0x08048000\<close>, \<open>0x0804A000\<close> and \<open>0x0804B000\<close>; the pages \<open>0x08049000\<close> and
  \<open>0x0804C000\<close> are not. The
  stack holds three trap frames: \<open>write (1, 0x08048100, 2)\<close> at \<open>0xBFFFFF00\<close>,
  \<open>exec (0xC0000000)\<close> at \<open>0xBFFFFF20\<close> and the call number 20 at \<open>0xBFFFFF30\<close>. The data
  hold the string \<open>hi\<close> at \<open>0x08048100\<close>, the string \<open>abc\<close> whose terminator is the last
  byte of the page \<open>0x08048000\<close>, the string \<open>xyz\<close> that starts two bytes before the end
  of the page \<open>0x0804A000\<close>, and the letter \<open>q\<close> in the last byte of the page
  \<open>0x0804B000\<close>.
\<close>

definition demo_pagedir :: "addr \<Rightarrow> addr option" where
  "demo_pagedir =
     map_of [(0xBFFFF000, 0xC0280000), (0x08048000, 0xC0281000),
             (0x0804A000, 0xC0283000), (0x0804B000, 0xC0285000)]"

definition demo_ram :: "addr \<Rightarrow> byte option" where
  "demo_ram =
     map_of [(0xC0280F00, 9), (0xC0280F01, 0), (0xC0280F02, 0), (0xC0280F03, 0),
             (0xC0280F04, 1), (0xC0280F05, 0), (0xC0280F06, 0), (0xC0280F07, 0),
             (0xC0280F08, 0x00), (0xC0280F09, 0x81), (0xC0280F0A, 0x04), (0xC0280F0B, 0x08),
             (0xC0280F0C, 2), (0xC0280F0D, 0), (0xC0280F0E, 0), (0xC0280F0F, 0),
             (0xC0280F20, 2), (0xC0280F21, 0), (0xC0280F22, 0), (0xC0280F23, 0),
             (0xC0280F24, 0x00), (0xC0280F25, 0x00), (0xC0280F26, 0x00), (0xC0280F27, 0xC0),
             (0xC0280F30, 20), (0xC0280F31, 0), (0xC0280F32, 0), (0xC0280F33, 0),
             (0xC0281100, 0x68), (0xC0281101, 0x69), (0xC0281102, 0),
             (0xC0281FFC, 0x61), (0xC0281FFD, 0x62), (0xC0281FFE, 0x63), (0xC0281FFF, 0),
             (0xC0283FFE, 0x78), (0xC0283FFF, 0x79),
             (0xC0285000, 0x7A), (0xC0285001, 0), (0xC0285FFF, 0x71)]"

definition demo :: machine where
  "demo =
     \<lparr>mem = mmu demo_pagedir demo_ram,
      pagedir = demo_pagedir,
      fresh_page = (\<lambda>i. 0xCC),
      process_execute = (\<lambda>cmd. 3),
      get_thread_by_tid = (\<lambda>tid. True),
      process_wait = (\<lambda>tid. 0),
      filesys_create = (\<lambda>name sz. True),
      filesys_remove = (\<lambda>name. True),
      filesys_open = (\<lambda>name. 0xC0109000),
      calloc_succeeds = True\<rparr>"

definition demo_state :: kstate where
  "demo_state = \<lparr>kernel_pool = [0xC0290000, 0xC0291000], lastfd = 2, open_list = []\<rparr>"

text \<open>A machine whose memory is present everywhere: the byte \<open>x\<close> at every address but one,
  which holds a NUL.\<close>

definition filled :: machine where
  "filled = demo\<lparr>mem := (\<lambda>a. if a = 0xC0281FFF then Some 0 else Some 0x78)\<rparr>"

text \<open>
  A machine with the page directory of the first one and a RAM that is present everywhere. The
  frame of the stack page holds zeros and the trap frames below; every other byte of RAM is the
  letter \<open>x\<close>, so the two bytes at \<open>0x0804AFFE\<close> and the whole page \<open>0x0804B000\<close> after
  them hold no terminator. The trap frames: \<open>create (0x0804AFFE, 0)\<close> at \<open>0xBFFFFF40\<close>,
  \<open>exec (0x0804AFFE)\<close> at \<open>0xBFFFFF50\<close>, \<open>remove (0x0804AFFE)\<close> at \<open>0xBFFFFF60\<close>,
  \<open>open (0x0804AFFE)\<close> at \<open>0xBFFFFF70\<close>, \<open>exec (0xC0000000)\<close> at \<open>0xBFFFFF80\<close>,
  \<open>create (0xC0000000, 0)\<close> at \<open>0xBFFFFF90\<close>, \<open>remove (0xC0000000)\<close> at
  \<open>0xBFFFFFA0\<close>, \<open>open (0xC0000000)\<close> at \<open>0xBFFFFFB0\<close>, \<open>read (0, 0xC0000000, 2)\<close>
  at \<open>0xBFFFFFC0\<close> and \<open>write (1, 0xC0000000, 2)\<close> at \<open>0xBFFFFFD0\<close>.
\<close>

definition crowded_ram :: "addr \<Rightarrow> byte option" where
  "crowded_ram a =
     (if pg_round_down a = 0xC0280000
      then (case map_of
                   [(0xC0280F40, 4),
                    (0xC0280F44, 0xFE), (0xC0280F45, 0xAF), (0xC0280F46, 0x04), (0xC0280F47, 0x08),
                    (0xC0280F50, 2),
                    (0xC0280F54, 0xFE), (0xC0280F55, 0xAF), (0xC0280F56, 0x04), (0xC0280F57, 0x08),
                    (0xC0280F60, 5),
                    (0xC0280F64, 0xFE), (0xC0280F65, 0xAF), (0xC0280F66, 0x04), (0xC0280F67, 0x08),
                    (0xC0280F70, 6),
                    (0xC0280F74, 0xFE), (0xC0280F75, 0xAF), (0xC0280F76, 0x04), (0xC0280F77, 0x08),
                    (0xC0280F80, 2), (0xC0280F87, 0xC0),
                    (0xC0280F90, 4), (0xC0280F97, 0xC0),
                    (0xC0280FA0, 5), (0xC0280FA7, 0xC0),
                    (0xC0280FB0, 6), (0xC0280FB7, 0xC0),
                    (0xC0280FC0, 8), (0xC0280FCB, 0xC0), (0xC0280FCC, 2),
                    (0xC0280FD0, 9), (0xC0280FD4, 1), (0xC0280FDB, 0xC0), (0xC0280FDC, 2)] a of
              None \<Rightarrow> Some 0
            | Some c \<Rightarrow> Some c)
      else Some 0x78)"

definition crowded :: machine where
  "crowded = demo\<lparr>mem := mmu demo_pagedir crowded_ram\<rparr>"

subsection \<open>Observations on a run\<close>

text \<open>The pages a run takes from the kernel pool and gives back, in order.\<close>

fun is_palloc :: "event \<Rightarrow> bool" where
  "is_palloc (PallocGet p) = True"
| "is_palloc (PallocFree p) = True"
| "is_palloc e = False"

definition palloc_events :: "event list \<Rightarrow> event list" where
  "palloc_events es = filter is_palloc es"

text \<open>The calls of the translator in a run, in order.\<close>

fun is_translate :: "event \<Rightarrow> bool" where
  "is_translate (Translate a) = True"
| "is_translate e = False"

definition translator_calls :: "event list \<Rightarrow> event list" where
  "translator_calls es = filter is_translate es"

section \<open>Properties of the frame table\<close>

lemmas frame_defs =
  frame_alloc_def frame_free_def frame_find_def palloc_get_page_def palloc_free_page_def
  clist_init_def clist_hand_def clist_push_back_def clist_remove_def clist_walk_def
  fte_assign_def init_fte_def table_inv_def fte_counted_def holds_reference_def clist_wf_def
  one_frame_def all_succeed_def reference_fails_def

subsection \<open>Lemmas\<close>

lemma length_remove_reference:
  "list_ex (\<lambda>r. process r = t) rs \<Longrightarrow> Suc (length (remove_reference t rs)) = length rs"
  by (induction rs) auto

lemma frame_find_lt: "frame_find c fr = Some i \<Longrightarrow> i < length (items c)"
proof -
  assume "frame_find c fr = Some i"
  then have "find (\<lambda>i. paddr (items c ! i) = fr) (clist_walk c) = Some i"
    by (simp add: frame_find_def split: option.splits)
  then have "i \<in> set (clist_walk c)"
    by (auto simp: find_Some_iff)
  then show ?thesis by (auto simp: clist_walk_def)
qed

lemma list_all_remove_nth: "list_all P xs \<Longrightarrow> list_all P (take i xs @ drop (Suc i) xs)"
proof -
  assume a: "list_all P xs"
  have "set (take i xs) \<subseteq> set xs" by (rule set_take_subset)
  moreover have "set (drop (Suc i) xs) \<subseteq> set xs" by (rule set_drop_subset)
  ultimately show ?thesis using a unfolding list_all_iff by auto
qed

lemma list_all_remove_updated:
  "list_all P xs \<Longrightarrow> list_all P (take i (xs[i := y]) @ drop (Suc i) (xs[i := y]))"
  by (simp add: list_all_remove_nth drop_update_cancel take_update_cancel flip: list_all_append)

lemma list_all_update: "list_all P xs \<Longrightarrow> P y \<Longrightarrow> list_all P (xs[i := y])"
  by (induction xs arbitrary: i) (auto split: nat.splits)

text \<open>
  Outside the path of the failed allocation of the reference the counts are kept:
  \<open>frame_free\<close> keeps them when the entry it finds holds a reference of the calling thread,
  and \<open>frame_alloc\<close> keeps them when the allocation of the entry fails or both allocations
  succeed (\<open>frame_alloc_inv\<close> below).
\<close>

lemma frame_free_inv:
  assumes inv: "table_inv s"
    and own: "case frame_find (ft s) fr of None \<Rightarrow> True
              | Some i \<Rightarrow> holds_reference t (items (ft s) ! i)"
  shows "table_inv (frame_free fr t s)"
proof (cases "frame_find (ft s) fr")
  case None
  with inv show ?thesis by (simp add: frame_free_def)
next
  case (Some i)
  let ?p = "items (ft s) ! i"
  let ?q = "?p\<lparr>refcnt := refcnt ?p - 1,
              reference_list := remove_reference t (reference_list ?p)\<rparr>"
  from Some have i: "i < length (items (ft s))" by (rule frame_find_lt)
  from own Some have h: "list_ex (\<lambda>r. process r = t) (reference_list ?p)"
    by (simp add: holds_reference_def)
  from inv i have c: "fte_counted ?p"
    by (simp add: table_inv_def list_all_length)
  have all: "list_all fte_counted (items (ft s))" using inv by (simp add: table_inv_def)
  show ?thesis
  proof (cases "refcnt ?p = 1")
    case True
    with Some i list_all_remove_nth [OF all, of i] show ?thesis
      by (simp add: frame_free_def fte_assign_def Let_def table_inv_def clist_remove_def)
  next
    case False
    with c length_remove_reference [OF h] have "fte_counted ?q"
      by (simp add: fte_counted_def)
    with False Some i all show ?thesis
      by (simp add: frame_free_def fte_assign_def Let_def table_inv_def list_all_update)
  qed
qed

lemma find_unique:
  "x \<in> set xs \<Longrightarrow> P x \<Longrightarrow> (\<forall>y\<in>set xs. P y \<longrightarrow> y = x) \<Longrightarrow> find P xs = Some x"
proof (induction xs)
  case Nil
  then show ?case by simp
next
  case (Cons a xs)
  show ?case
  proof (cases "P a")
    case True
    with Cons.prems(3) have "a = x" by simp
    with True show ?thesis by simp
  next
    case False
    with Cons.prems(1,2) have m: "x \<in> set xs" by auto
    from Cons.prems(3) have u: "\<forall>y\<in>set xs. P y \<longrightarrow> y = x" by simp
    have "find P xs = Some x" by (rule Cons.IH [OF m Cons.prems(2) u])
    with False show ?thesis by simp
  qed
qed

lemma frame_find_pushed:
  assumes "list_all (\<lambda>f. paddr f \<noteq> fr) xs"
  shows "frame_find \<lparr>items = xs @ [f\<lparr>paddr := fr\<rparr>], hand = h\<rparr> fr = Some (length xs)"
proof -
  let ?c = "\<lparr>items = xs @ [f\<lparr>paddr := fr\<rparr>], hand = h\<rparr>"
  have m: "length xs \<in> set (clist_walk ?c)"
    by (cases "h \<le> length xs") (simp_all add: clist_walk_def)
  have u: "\<forall>y\<in>set (clist_walk ?c). paddr (items ?c ! y) = fr \<longrightarrow> y = length xs"
    using assms by (auto simp: clist_walk_def nth_append list_all_length)
  have "find (\<lambda>i. paddr (items ?c ! i) = fr) (clist_walk ?c) = Some (length xs)"
    by (rule find_unique [OF m _ u]) simp
  then show ?thesis by (simp add: frame_find_def clist_hand_def)
qed

text \<open>
  In a table that has no entry for the page that the page source hands out, a successful
  \<open>frame_alloc\<close> followed by the \<open>frame_free\<close> of the returned page by the same thread
  gives back the table as it was.
\<close>

lemma alloc_then_free:
  assumes wf: "clist_wf (ft s)"
    and al: "frame_alloc va env s = Returned (fr, s1)"
    and nn: "fr \<noteq> NULL"
    and fresh: "list_all (\<lambda>f. paddr f \<noteq> fr) (items (ft s))"
  shows "frame_free fr (cur env) s1 = s"
proof (cases "user_pool s")
  case Nil
  with al show ?thesis by (simp add: frame_alloc_def palloc_get_page_def)
next
  case (Cons p ps)
  let ?xs = "items (ft s)"
  let ?h = "if ?xs = [] then 0 else hand (ft s)"
  let ?f = "\<lparr>paddr = fr, reference_list = [\<lparr>process = cur env, vaddr = va\<rparr>], refcnt = 1\<rparr>"
  from al nn Cons have s1: "s1 = s\<lparr>user_pool := ps, ft := \<lparr>items = ?xs @ [?f], hand = ?h\<rparr>\<rparr>"
    and p: "p = fr"
    by (auto simp: frame_alloc_def palloc_get_page_def Let_def clist_push_back_def
        fte_assign_def init_fte_def split: if_splits)
  have "frame_find \<lparr>items = ?xs @ [?f\<lparr>paddr := fr\<rparr>], hand = ?h\<rparr> fr = Some (length ?xs)"
    using fresh by (rule frame_find_pushed)
  then have ff: "frame_find (ft s1) fr = Some (length ?xs)"
    by (simp add: s1)
  have hd: "clist_remove \<lparr>items = ?xs @ [g], hand = ?h\<rparr> (length ?xs) = ft s" for g
  proof (cases "?xs = []")
    case True
    with wf show ?thesis by (simp add: clist_remove_def clist_wf_def)
  next
    case False
    with wf show ?thesis by (simp add: clist_remove_def clist_wf_def)
  qed
  have "frame_free fr (cur env) s1 =
        s1\<lparr>user_pool := fr # ps, ft := clist_remove \<lparr>items = ?xs @ [?f\<lparr>refcnt := 0, reference_list := []\<rparr>], hand = ?h\<rparr> (length ?xs)\<rparr>"
    using ff nn by (simp add: frame_free_def fte_assign_def Let_def s1 palloc_free_page_def)
  also have "\<dots> = s"
    using Cons p by (simp add: hd s1)
  finally show ?thesis .
qed

lemma frame_alloc_inv:
  assumes "table_inv s" "frame_alloc va env s = Returned (r, s')" "\<not> fte_malloc env \<or> ref_malloc env"
  shows "table_inv s'"
proof (cases "user_pool s")
  case Nil
  with assms(2) show ?thesis by (simp add: frame_alloc_def palloc_get_page_def)
next
  case (Cons p ps)
  show ?thesis
  proof (cases "fte_malloc env")
    case False
    with assms(1,2) Cons show ?thesis
      by (auto simp: frame_alloc_def palloc_get_page_def table_inv_def Let_def split: if_splits)
  next
    case True
    with assms(3) have r: "ref_malloc env" by simp
    from assms(1,2) Cons True r show ?thesis
      by (auto simp: frame_alloc_def palloc_get_page_def table_inv_def clist_push_back_def
          fte_assign_def init_fte_def fte_counted_def Let_def split: if_splits)
  qed
qed

subsection \<open>Claims about the frame table\<close>

text \<open>
  Claim C3 fails on the code. The table \<open>one_frame\<close> is the one that \<open>frame_alloc\<close>
  builds from the empty table for thread 1; its entry has \<open>refcnt\<close> 1 and one reference.
  In the next \<open>frame_alloc\<close> the allocation of the reference fails: the call returns the
  null pointer, and the entry it pushed stays in the table with \<open>refcnt\<close> zero and an empty
  reference list. A \<open>frame_free\<close> of that page then finds the entry and takes its count to
  -1, which is not the length of its list, and the entry stays again.
\<close>

theorem C3_failed_reference_breaks_counts:
  "frame_alloc 0x08048000 (all_succeed 1)
     \<lparr>ft = clist_init, user_pool = [0xC0271000, 0xC0272000]\<rparr> =
     Returned (0xC0271000, one_frame) \<and>
   table_inv one_frame \<and>
   frame_alloc 0x08049000 (reference_fails 1) one_frame =
     Returned (NULL,
       \<lparr>ft = \<lparr>items = [\<lparr>paddr = 0xC0271000,
                          reference_list = [\<lparr>process = 1, vaddr = 0x08048000\<rparr>],
                          refcnt = 1\<rparr>,
                        \<lparr>paddr = 0xC0272000, reference_list = [], refcnt = 0\<rparr>],
               hand = 0\<rparr>,
        user_pool = [0xC0272000]\<rparr>) \<and>
   \<not> table_inv
       \<lparr>ft = \<lparr>items = [\<lparr>paddr = 0xC0271000,
                          reference_list = [\<lparr>process = 1, vaddr = 0x08048000\<rparr>],
                          refcnt = 1\<rparr>,
                        \<lparr>paddr = 0xC0272000, reference_list = [], refcnt = 0\<rparr>],
               hand = 0\<rparr>,
        user_pool = [0xC0272000]\<rparr> \<and>
   frame_free 0xC0272000 1
       \<lparr>ft = \<lparr>items = [\<lparr>paddr = 0xC0271000,
                          reference_list = [\<lparr>process = 1, vaddr = 0x08048000\<rparr>],
                          refcnt = 1\<rparr>,
                        \<lparr>paddr = 0xC0272000, reference_list = [], refcnt = 0\<rparr>],
               hand = 0\<rparr>,
        user_pool = [0xC0272000]\<rparr> =
       \<lparr>ft = \<lparr>items = [\<lparr>paddr = 0xC0271000,
                          reference_list = [\<lparr>process = 1, vaddr = 0x08048000\<rparr>],
                          refcnt = 1\<rparr>,
                        \<lparr>paddr = 0xC0272000, reference_list = [], refcnt = - 1\<rparr>],
               hand = 0\<rparr>,
        user_pool = [0xC0272000]\<rparr> \<and>
   \<not> table_inv
       \<lparr>ft = \<lparr>items = [\<lparr>paddr = 0xC0271000,
                          reference_list = [\<lparr>process = 1, vaddr = 0x08048000\<rparr>],
                          refcnt = 1\<rparr>,
                        \<lparr>paddr = 0xC0272000, reference_list = [], refcnt = - 1\<rparr>],
               hand = 0\<rparr>,
        user_pool = [0xC0272000]\<rparr>"
  by (simp add: frame_defs)

text \<open>
  Claim C5 fails on the code. With an empty table, a pool holding the page \<open>0xC0271000\<close>, a
  successful allocation of the entry and a failed allocation of the reference,
  \<open>frame_alloc\<close> returns the null pointer and gives the page back to the pool, and the entry
  it pushed stays in the circular list, with the address of the page it no longer owns.
\<close>

theorem C5_failed_reference_leaves_entry:
  "frame_alloc 0x08048000 (reference_fails 1) \<lparr>ft = clist_init, user_pool = [0xC0271000]\<rparr> =
     Returned (NULL,
       \<lparr>ft = \<lparr>items = [\<lparr>paddr = 0xC0271000, reference_list = [], refcnt = 0\<rparr>], hand = 0\<rparr>,
        user_pool = [0xC0271000]\<rparr>)"
  by (simp add: frame_defs)

text \<open>
  Claim C8 fails on the code, through the entry that the failed allocation of claim C5 leaves
  behind. The table is empty and the pool holds the page \<open>0xC0271000\<close>. A first
  \<open>frame_alloc\<close> fails at the allocation of the reference and leaves its entry for the page
  in the table: this is the table before the round trip, with one entry. The second
  \<open>frame_alloc\<close>, for thread 1 and the address \<open>0x08049000\<close>, succeeds and returns the
  same page, which the pool hands out again. The \<open>frame_free\<close> of the returned page by
  thread 1 finds the stale entry first and takes its count to -1; the new entry stays in the
  table with the reference for the pair, and the page is not given back. The table has two
  entries after the round trip.
\<close>

theorem C8_round_trip_after_failed_reference:
  "frame_alloc 0x08048000 (reference_fails 1) \<lparr>ft = clist_init, user_pool = [0xC0271000]\<rparr> =
     Returned (NULL,
       \<lparr>ft = \<lparr>items = [\<lparr>paddr = 0xC0271000, reference_list = [], refcnt = 0\<rparr>], hand = 0\<rparr>,
        user_pool = [0xC0271000]\<rparr>) \<and>
   frame_alloc 0x08049000 (all_succeed 1)
     \<lparr>ft = \<lparr>items = [\<lparr>paddr = 0xC0271000, reference_list = [], refcnt = 0\<rparr>], hand = 0\<rparr>,
      user_pool = [0xC0271000]\<rparr> =
   Returned (0xC0271000,
     \<lparr>ft = \<lparr>items = [\<lparr>paddr = 0xC0271000, reference_list = [], refcnt = 0\<rparr>,
                      \<lparr>paddr = 0xC0271000,
                        reference_list = [\<lparr>process = 1, vaddr = 0x08049000\<rparr>],
                        refcnt = 1\<rparr>],
             hand = 0\<rparr>,
      user_pool = []\<rparr>) \<and>
   frame_free 0xC0271000 1
     \<lparr>ft = \<lparr>items = [\<lparr>paddr = 0xC0271000, reference_list = [], refcnt = 0\<rparr>,
                      \<lparr>paddr = 0xC0271000,
                        reference_list = [\<lparr>process = 1, vaddr = 0x08049000\<rparr>],
                        refcnt = 1\<rparr>],
             hand = 0\<rparr>,
      user_pool = []\<rparr> =
     \<lparr>ft = \<lparr>items = [\<lparr>paddr = 0xC0271000, reference_list = [], refcnt = - 1\<rparr>,
                      \<lparr>paddr = 0xC0271000,
                        reference_list = [\<lparr>process = 1, vaddr = 0x08049000\<rparr>],
                        refcnt = 1\<rparr>],
             hand = 0\<rparr>,
      user_pool = []\<rparr> \<and>
   length (items (ft
     \<lparr>ft = \<lparr>items = [\<lparr>paddr = 0xC0271000, reference_list = [], refcnt = 0\<rparr>], hand = 0\<rparr>,
      user_pool = [0xC0271000]\<rparr>)) = 1 \<and>
   length (items (ft (frame_free 0xC0271000 1
     \<lparr>ft = \<lparr>items = [\<lparr>paddr = 0xC0271000, reference_list = [], refcnt = 0\<rparr>,
                      \<lparr>paddr = 0xC0271000,
                        reference_list = [\<lparr>process = 1, vaddr = 0x08049000\<rparr>],
                        refcnt = 1\<rparr>],
             hand = 0\<rparr>,
      user_pool = []\<rparr>))) = 2 \<and>
   list_ex (\<lambda>f. \<lparr>process = 1, vaddr = 0x08049000\<rparr> \<in> set (reference_list f))
     (items (ft (frame_free 0xC0271000 1
     \<lparr>ft = \<lparr>items = [\<lparr>paddr = 0xC0271000, reference_list = [], refcnt = 0\<rparr>,
                      \<lparr>paddr = 0xC0271000,
                        reference_list = [\<lparr>process = 1, vaddr = 0x08049000\<rparr>],
                        refcnt = 1\<rparr>],
             hand = 0\<rparr>,
      user_pool = []\<rparr>)))"
  by (simp add: frame_defs)

section \<open>Properties of the copier and of the system calls\<close>

subsection \<open>Page arithmetic\<close>

lemma pg_ofs_mod: "pg_ofs a = a mod 4096"
  by (simp add: pg_ofs_def PGMASK_def take_bit_eq_mask mask_eq_exp_minus_1 flip: take_bit_eq_mod [where n = 12, simplified])

lemma unat_pg_ofs: "unat (pg_ofs a) = unat a mod 4096"
  by (simp add: pg_ofs_mod unat_mod)

lemma pg_split: "pg_round_down a + pg_ofs a = a"
proof -
  have "pg_round_down a + pg_ofs a = pg_round_down a OR pg_ofs a"
    by (rule disjunctive_add_eq_or) (simp add: pg_round_down_def pg_ofs_def bit_eq_iff bit_simps)
  also have "\<dots> = a"
    by (auto simp add: pg_round_down_def pg_ofs_def bit_eq_iff bit_simps)
  finally show ?thesis .
qed

lemma unat_pg_round_down: "unat (pg_round_down a) = 4096 * (unat a div 4096)"
proof -
  have "pg_round_down a \<le> a"
    by (simp add: pg_round_down_def word_and_le2)
  then have "pg_round_down a \<le> pg_round_down a + pg_ofs a"
    by (simp only: pg_split)
  then have "unat (pg_round_down a + pg_ofs a) = unat (pg_round_down a) + unat (pg_ofs a)"
    by (simp only: unat_plus_simple)
  then have "unat (pg_round_down a) + unat a mod 4096 = unat a"
    by (simp only: pg_split unat_pg_ofs)
  moreover have "4096 * (unat a div 4096) + unat a mod 4096 = unat a"
    by simp
  ultimately show ?thesis
    by linarith
qed

lemma page_plus_bound:
  assumes "k < (4096::nat)" and "n < (4294967296::nat)"
  shows "4096 * (n div 4096) + k < 4294967296"
proof -
  have "n div 4096 < 1048576"
    using assms(2) by (simp add: div_less_iff_less_mult)
  then have "4096 * (n div 4096) + 4096 \<le> 4096 * 1048576"
    by linarith
  with assms(1) show ?thesis by simp
qed

lemma unat_page_plus:
  assumes "k < 4096"
  shows "unat (pg_round_down a + of_nat k) = 4096 * (unat a div 4096) + k"
proof -
  have "unat a < 4294967296"
    using unsigned_less [of a] by simp
  with assms have "4096 * (unat a div 4096) + k < 4294967296"
    by (rule page_plus_bound)
  moreover have "k < 4294967296" using assms by simp
  ultimately show ?thesis
    by (simp add: unat_word_ariths unat_pg_round_down unat_of_nat take_bit_eq_mod)
qed

lemma pg_round_down_page_plus:
  assumes "k < 4096"
  shows "pg_round_down (pg_round_down a + of_nat k) = pg_round_down a"
proof -
  have "(4096 * (unat a div 4096) + k) div 4096 = unat a div 4096"
    using assms by simp
  then have "unat (pg_round_down (pg_round_down a + of_nat k)) = unat (pg_round_down a)"
    using assms by (simp only: unat_pg_round_down unat_page_plus)
  then show ?thesis
    by (simp only: word_unat_eq_iff)
qed

lemma pg_ofs_page_plus:
  assumes "k < 4096"
  shows "unat (pg_ofs (pg_round_down a + of_nat k)) = k"
  using assms by (simp add: unat_pg_ofs unat_page_plus)

subsection \<open>The scan for the terminator\<close>

declare sob_scan.simps [simp del]

lemma sob_scan_loads:
  "e \<in> set (fst (sob_scan m page offset)) \<Longrightarrow>
     \<exists>k. offset \<le> k \<and> k < 4096 \<and> e = Load (page + of_nat k)"
proof (induction m page offset rule: sob_scan.induct)
  case (1 m page offset)
  show ?case
  proof (cases "offset < 4096")
    case False
    with "1.prems" show ?thesis
      by (simp add: sob_scan.simps [of m page offset] PGSIZE_def ret_def)
  next
    case in_page: True
    show ?thesis
    proof (cases "mem m (page + of_nat offset)")
      case None
      with in_page "1.prems" have "e = Load (page + of_nat offset)"
        by (simp add: sob_scan.simps [of m page offset] PGSIZE_def)
      with in_page show ?thesis by blast
    next
      case (Some c)
      show ?thesis
      proof (cases "c = 0")
        case True
        with Some in_page "1.prems" have "e = Load (page + of_nat offset)"
          by (simp add: sob_scan.simps [of m page offset] PGSIZE_def)
        with in_page show ?thesis by blast
      next
        case False
        with Some in_page "1.prems"
        have "e = Load (page + of_nat offset) \<or> e \<in> set (fst (sob_scan m page (Suc offset)))"
          by (simp add: sob_scan.simps [of m page offset] PGSIZE_def emit_def)
        then show ?thesis
        proof
          assume "e = Load (page + of_nat offset)"
          with in_page show ?thesis by blast
        next
          assume "e \<in> set (fst (sob_scan m page (Suc offset)))"
          with "1.IH" [of c] Some False in_page
          obtain k where "Suc offset \<le> k" "k < 4096" "e = Load (page + of_nat k)"
            by (auto simp: PGSIZE_def)
          then show ?thesis
            by (intro exI [of _ k]) simp
        qed
      qed
    qed
  qed
qed

lemma sob_scan_result:
  "(\<forall>k. offset \<le> k \<and> k < 4096 \<longrightarrow> mem m (page + of_nat k) \<noteq> None) \<Longrightarrow>
   snd (sob_scan m page offset) =
     Returned (\<not> (\<exists>k. offset \<le> k \<and> k < 4096 \<and> mem m (page + of_nat k) = Some 0))"
proof (induction m page offset rule: sob_scan.induct)
  case (1 m page offset)
  show ?case
  proof (cases "offset < 4096")
    case False
    then show ?thesis
      by (simp add: sob_scan.simps [of m page offset] PGSIZE_def ret_def)
  next
    case in_page: True
    with "1.prems" obtain c where c: "mem m (page + of_nat offset) = Some c"
      by (metis le_refl not_None_eq)
    show ?thesis
    proof (cases "c = 0")
      case True
      with c in_page have "\<exists>k. offset \<le> k \<and> k < 4096 \<and> mem m (page + of_nat k) = Some 0"
        by (intro exI [of _ offset]) simp
      with True c in_page show ?thesis
        by (simp add: sob_scan.simps [of m page offset] PGSIZE_def)
    next
      case False
      have "\<forall>k. Suc offset \<le> k \<and> k < 4096 \<longrightarrow> mem m (page + of_nat k) \<noteq> None"
        using "1.prems" by simp
      with "1.IH" [of c] c False in_page
      have ih: "snd (sob_scan m page (Suc offset)) =
        Returned (\<not> (\<exists>k. Suc offset \<le> k \<and> k < 4096 \<and> mem m (page + of_nat k) = Some 0))"
        by (simp add: PGSIZE_def)
      have "(\<exists>k. Suc offset \<le> k \<and> k < 4096 \<and> mem m (page + of_nat k) = Some 0) =
            (\<exists>k. offset \<le> k \<and> k < 4096 \<and> mem m (page + of_nat k) = Some 0)"
      proof
        assume "\<exists>k. Suc offset \<le> k \<and> k < 4096 \<and> mem m (page + of_nat k) = Some 0"
        then show "\<exists>k. offset \<le> k \<and> k < 4096 \<and> mem m (page + of_nat k) = Some 0"
          using Suc_leD by blast
      next
        assume "\<exists>k. offset \<le> k \<and> k < 4096 \<and> mem m (page + of_nat k) = Some 0"
        then obtain k where k: "offset \<le> k" "k < 4096" "mem m (page + of_nat k) = Some 0"
          by blast
        with c False have "k \<noteq> offset" by auto
        with k have "Suc offset \<le> k" by simp
        with k show "\<exists>k. Suc offset \<le> k \<and> k < 4096 \<and> mem m (page + of_nat k) = Some 0"
          by blast
      qed
      with ih c False in_page show ?thesis
        by (simp add: sob_scan.simps [of m page offset] PGSIZE_def emit_def)
    qed
  qed
qed

subsection \<open>Runs and the C library\<close>

declare strlen_from.simps [simp del]
declare cstring_from.simps [simp del]
declare write_loop.simps [simp del]

lemma snd_ret [simp]: "snd (ret x) = Returned x" and fst_ret [simp]: "fst (ret x) = []"
  by (simp_all add: ret_def)

lemma snd_stop_with [simp]: "snd (stop_with st) = Stopped st"
  and fst_stop_with [simp]: "fst (stop_with st) = []"
  by (simp_all add: stop_with_def)

lemma snd_emit [simp]: "snd (emit e r) = snd r" and fst_emit [simp]: "fst (emit e r) = e # fst r"
  by (simp_all add: emit_def)

lemma snd_seq_Returned: "snd r = Returned x \<Longrightarrow> snd (seq r k) = snd (k x)"
  by (simp add: seq_def)

lemma fst_seq_Returned: "snd r = Returned x \<Longrightarrow> fst (seq r k) = fst r @ fst (k x)"
  by (simp add: seq_def)

lemma seq_Stopped: "snd r = Stopped st \<Longrightarrow> seq r k = (fst r, Stopped st)"
  by (simp add: seq_def)


lemma snd_load: "snd (load m a) = (case mem m a of None \<Rightarrow> Stopped (PageFault a) | Some c \<Rightarrow> Returned c)"
  by (simp add: load_def split: option.splits)



lemma snd_store:
  "base dst \<noteq> NULL \<Longrightarrow>
     snd (store dst i c) = Returned (dst\<lparr>bytes := (bytes dst)(i := c)\<rparr>)"
  by (simp add: store_def)






lemma memcpy_Returned:
  "base dst \<noteq> NULL \<Longrightarrow> (\<forall>k<n. mem m (s + of_nat k) \<noteq> None) \<Longrightarrow>
   snd (memcpy m dst d s n) =
     Returned (dst\<lparr>bytes := \<lambda>i. if d \<le> i \<and> i < d + n then the (mem m (s + of_nat (i - d)))
                                else bytes dst i\<rparr>)"
proof (induction n arbitrary: dst d s)
  case 0
  have "(\<lambda>i. if d \<le> i \<and> i < d + 0 then the (mem m (s + of_nat (i - d))) else bytes dst i) =
        bytes dst"
  proof (rule ext)
    fix i
    have "\<not> (d \<le> i \<and> i < d + 0)" by arith
    then show "(if d \<le> i \<and> i < d + 0 then the (mem m (s + of_nat (i - d))) else bytes dst i) =
               bytes dst i"
      by (simp only: if_False)
  qed
  then have "dst\<lparr>bytes := \<lambda>i. if d \<le> i \<and> i < d + 0 then the (mem m (s + of_nat (i - d)))
                                else bytes dst i\<rparr> = dst"
    by (simp only: buffer.update_convs buffer.surjective [symmetric] id_apply) simp
  then show ?case by (simp only: memcpy.simps snd_ret)
next
  case (Suc n)
  from Suc.prems(2) obtain c where c: "mem m s = Some c"
    using Suc.prems(2) [rule_format, of 0] by auto
  let ?dst1 = "dst\<lparr>bytes := (bytes dst)(d := c)\<rparr>"
  from Suc.prems(1) have st: "snd (store dst d c) = Returned ?dst1"
    by (simp add: snd_store)
  have pres: "\<forall>k<n. mem m (s + 1 + of_nat k) \<noteq> None"
  proof (intro allI impI)
    fix k assume "k < n"
    then have "Suc k < Suc n" by simp
    with Suc.prems(2) have "mem m (s + of_nat (Suc k)) \<noteq> None" by blast
    then show "mem m (s + 1 + of_nat k) \<noteq> None" by (simp add: add.assoc)
  qed
  from Suc.prems(1) have "base ?dst1 \<noteq> NULL" by simp
  from Suc.IH [OF this pres]
  have ih: "snd (memcpy m ?dst1 (Suc d) (s + 1) n) =
    Returned (?dst1\<lparr>bytes := \<lambda>i. if Suc d \<le> i \<and> i < Suc d + n
                  then the (mem m (s + 1 + of_nat (i - Suc d))) else bytes ?dst1 i\<rparr>)" .
  have eq: "(\<lambda>i. if Suc d \<le> i \<and> i < Suc d + n
                  then the (mem m (s + 1 + of_nat (i - Suc d))) else bytes ?dst1 i) =
        (\<lambda>i. if d \<le> i \<and> i < d + Suc n then the (mem m (s + of_nat (i - d))) else bytes dst i)"
  proof
    fix i
    show "(if Suc d \<le> i \<and> i < Suc d + n
                  then the (mem m (s + 1 + of_nat (i - Suc d))) else bytes ?dst1 i) =
        (if d \<le> i \<and> i < d + Suc n then the (mem m (s + of_nat (i - d))) else bytes dst i)"
    proof (cases "i = d")
      case True
      with c show ?thesis by simp
    next
      case False
      show ?thesis
      proof (cases "Suc d \<le> i \<and> i < Suc d + n")
        case True
        then have "i - d = Suc (i - Suc d)" by arith
        then have "s + of_nat (i - d) = s + 1 + of_nat (i - Suc d)"
          by (simp add: add.assoc)
        with True show ?thesis by simp
      next
        case f: False
        with False show ?thesis by auto
      qed
    qed
  qed
  have "snd (memcpy m dst d s (Suc n)) = snd (memcpy m ?dst1 (Suc d) (s + 1) n)"
    using c st by (simp add: snd_seq_Returned snd_load load_def)
  also note ih
  finally show ?case by (simp only: eq buffer.simps buffer.update_convs) simp
qed

lemma unat_rest_of_page: "unat (PGSIZE - pg_ofs a) = 4096 - unat a mod 4096"
proof -
  have "unat (pg_ofs a) < 4096" by (simp add: unat_pg_ofs)
  then have "pg_ofs a \<le> PGSIZE" by (simp add: PGSIZE_def word_le_nat_alt)
  then have "unat (PGSIZE - pg_ofs a) = unat PGSIZE - unat (pg_ofs a)"
    by (rule unat_sub)
  then show ?thesis by (simp add: PGSIZE_def unat_pg_ofs)
qed


lemma unat_min_word: "unat (min (a :: 32 word) b) = min (unat a) (unat b)"
  by (simp add: min_def word_le_nat_alt)

lemma page_plus_ofs: "pg_round_down s + of_nat (unat (pg_ofs s) + k) = s + of_nat k"
proof -
  have "pg_round_down s + of_nat (unat (pg_ofs s) + k) = (pg_round_down s + pg_ofs s) + of_nat k"
    by (simp add: add.assoc)
  then show ?thesis by (simp only: pg_split)
qed


lemma sob_scan_False_iff:
  "(snd (sob_scan m page offset) = Returned False) =
   (\<exists>k. offset \<le> k \<and> k < 4096 \<and> mem m (page + of_nat k) = Some 0 \<and>
        (\<forall>j. offset \<le> j \<and> j < k \<longrightarrow> mem m (page + of_nat j) \<noteq> None))"
  (is "?L m page offset = ?R m page offset")
proof (induction m page offset rule: sob_scan.induct)
  case (1 m page offset)
  show ?case
  proof (cases "offset < 4096")
    case False
    then have "\<not> ?R m page offset" by auto
    moreover from False have "\<not> ?L m page offset"
      by (simp add: sob_scan.simps [of m page offset] PGSIZE_def ret_def)
    ultimately show ?thesis by blast
  next
    case in_page: True
    show ?thesis
    proof (cases "mem m (page + of_nat offset)")
      case None
      have "\<not> ?R m page offset"
      proof
        assume "?R m page offset"
        then obtain k where k: "offset \<le> k" "mem m (page + of_nat k) = Some 0"
          "\<forall>j. offset \<le> j \<and> j < k \<longrightarrow> mem m (page + of_nat j) \<noteq> None"
          by blast
        show False
        proof (cases "k = offset")
          case True
          with k(2) None show False by simp
        next
          case False
          with k(1) have "offset < k" by simp
          with k(3) None show False by blast
        qed
      qed
      moreover from None in_page have "\<not> ?L m page offset"
        by (simp add: sob_scan.simps [of m page offset] PGSIZE_def)
      ultimately show ?thesis by blast
    next
      case (Some c)
      show ?thesis
      proof (cases "c = 0")
        case True
        with Some in_page have "?R m page offset"
          by (intro exI [of _ offset]) auto
        moreover from True Some in_page have "?L m page offset"
          by (simp add: sob_scan.simps [of m page offset] PGSIZE_def)
        ultimately show ?thesis by blast
      next
        case False
        have lt: "offset < unat PGSIZE" using in_page by (simp add: PGSIZE_def)
        note ih = "1.IH" [OF lt Some False]
        from False Some in_page have step: "?L m page offset = ?L m page (Suc offset)"
          by (simp add: sob_scan.simps [of m page offset] PGSIZE_def)
        have "?R m page offset = ?R m page (Suc offset)"
        proof
          assume "?R m page offset"
          then obtain k where k: "offset \<le> k" "k < 4096" "mem m (page + of_nat k) = Some 0"
            "\<forall>j. offset \<le> j \<and> j < k \<longrightarrow> mem m (page + of_nat j) \<noteq> None"
            by blast
          from k(3) Some False have "k \<noteq> offset" by auto
          with k(1) have "Suc offset \<le> k" by simp
          moreover from k(4) have "\<forall>j. Suc offset \<le> j \<and> j < k \<longrightarrow> mem m (page + of_nat j) \<noteq> None"
            by simp
          ultimately show "?R m page (Suc offset)" using k(2,3) by blast
        next
          assume "?R m page (Suc offset)"
          then obtain k where k: "Suc offset \<le> k" "k < 4096" "mem m (page + of_nat k) = Some 0"
            "\<forall>j. Suc offset \<le> j \<and> j < k \<longrightarrow> mem m (page + of_nat j) \<noteq> None"
            by blast
          have "mem m (page + of_nat j) \<noteq> None" if "offset \<le> j \<and> j < k" for j
          proof (cases "j = offset")
            case True
            with Some show ?thesis by simp
          next
            case False
            with that have "Suc offset \<le> j \<and> j < k" by simp
            with k(4) show ?thesis by blast
          qed
          moreover from k(1) have "offset \<le> k" by simp
          ultimately show "?R m page offset" using k(2,3) by blast
        qed
        with ih step show ?thesis by simp
      qed
    qed
  qed
qed

subsection \<open>The copier\<close>

lemma snd_seq:
  "snd (seq r k) = (case snd r of Stopped st \<Rightarrow> Stopped st | Returned x \<Rightarrow> snd (k x))"
  by (simp add: seq_def split: outcome.splits)

lemma strlbond_stopped:
  "snd (str_over_boundary m (user_vtop m src)) = Stopped st \<Longrightarrow>
   snd (strlbond m dst src sz) = Stopped st"
  by (simp add: strlbond_def snd_seq Let_def)


lemma strlbond_over:
  assumes "snd (str_over_boundary m (user_vtop m src)) = Returned True"
  shows "snd (strlbond m dst src sz) =
     snd (seq (memcpy m dst 0 (user_vtop m src) (unat (min (PGSIZE - pg_ofs src) (sz - 1))))
       (\<lambda>dst1. seq (store dst1 (unat (min (PGSIZE - pg_ofs src) (sz - 1))) 0)
       (\<lambda>dst2. seq (str_over_boundary m (pg_round_down (src + PGSIZE)))
       (\<lambda>over'. if over' then stop_with (Panic ''assertion `!str_over_boundary (s)' failed.'')
          else strlcpy m dst2 (unat (min (PGSIZE - pg_ofs src) (sz - 1)))
                 (pg_round_down (src + PGSIZE)) (sz - min (PGSIZE - pg_ofs src) (sz - 1))))))"
  using assms by (simp add: strlbond_def snd_seq Let_def split: outcome.splits)

lemma source_byte_eq:
  "source_byte m src k =
     (if k < 4096 - unat src mod 4096 then mem m (user_vtop m src + of_nat k)
      else mem m (pg_round_down (src + PGSIZE) + of_nat (k - (4096 - unat src mod 4096))))"
  by (simp add: source_byte_def Let_def unat_rest_of_page)



lemma source_byte_next:
  "source_byte m src ((4096 - unat src mod 4096) + j) =
     mem m (pg_round_down (src + PGSIZE) + of_nat j)"
proof -
  have "\<not> (4096 - unat src mod 4096) + j < 4096 - unat src mod 4096" by simp
  moreover have "(4096 - unat src mod 4096) + j - (4096 - unat src mod 4096) = j" by simp
  ultimately show ?thesis by (simp only: source_byte_eq if_False)
qed



lemma memcpy_Returned_0:
  assumes "base dst \<noteq> NULL" and "\<forall>k<n. mem m (s + of_nat k) \<noteq> None"
  shows "snd (memcpy m dst 0 s n) =
     Returned (dst\<lparr>bytes := \<lambda>i. if i < n then the (mem m (s + of_nat i)) else bytes dst i\<rparr>)"
proof -
  have "(\<lambda>i. if 0 \<le> i \<and> i < 0 + n then the (mem m (s + of_nat (i - 0))) else bytes dst i) =
        (\<lambda>i. if i < n then the (mem m (s + of_nat i)) else bytes dst i)"
    by (rule ext) simp
  then show ?thesis
    using memcpy_Returned [OF assms(1) assms(2), of 0] by (simp only:)
qed


subsection \<open>When the copier returns, and when it stops the kernel\<close>

lemma pg_ofs_pg_round_down: "unat (pg_ofs (pg_round_down a)) = 0"
  using pg_ofs_page_plus [of 0 a] by simp

lemma sob_scan_True:
  assumes "\<forall>k. offset \<le> k \<and> k < 4096 \<longrightarrow> (\<exists>c. mem m (page + of_nat k) = Some c \<and> c \<noteq> 0)"
  shows "snd (sob_scan m page offset) = Returned True"
proof -
  have pres: "\<forall>k. offset \<le> k \<and> k < 4096 \<longrightarrow> mem m (page + of_nat k) \<noteq> None"
  proof (intro allI impI)
    fix k assume "offset \<le> k \<and> k < 4096"
    with assms obtain c where "mem m (page + of_nat k) = Some c" by blast
    then show "mem m (page + of_nat k) \<noteq> None" by simp
  qed
  have none: "\<not> (\<exists>k. offset \<le> k \<and> k < 4096 \<and> mem m (page + of_nat k) = Some 0)"
  proof
    assume "\<exists>k. offset \<le> k \<and> k < 4096 \<and> mem m (page + of_nat k) = Some 0"
    then obtain k where k: "offset \<le> k \<and> k < 4096" "mem m (page + of_nat k) = Some 0" by blast
    from assms k(1) obtain c where "mem m (page + of_nat k) = Some c" "c \<noteq> 0" by blast
    with k(2) show False by simp
  qed
  from sob_scan_result [OF pres] none show ?thesis by simp
qed

lemma str_over_boundary_True:
  assumes "\<forall>k < 4096 - unat (pg_ofs s). \<exists>c. mem m (s + of_nat k) = Some c \<and> c \<noteq> 0"
  shows "snd (str_over_boundary m s) = Returned True"
proof -
  let ?o = "unat (pg_ofs s)"
  have "\<forall>j. ?o \<le> j \<and> j < 4096 \<longrightarrow> (\<exists>c. mem m (pg_round_down s + of_nat j) = Some c \<and> c \<noteq> 0)"
  proof (intro allI impI)
    fix j assume j: "?o \<le> j \<and> j < 4096"
    then have "j - ?o < 4096 - ?o" by arith
    with assms have "\<exists>c. mem m (s + of_nat (j - ?o)) = Some c \<and> c \<noteq> 0" by blast
    moreover from j have "pg_round_down s + of_nat j = s + of_nat (j - ?o)"
      using page_plus_ofs [of s "j - ?o"] by simp
    ultimately show "\<exists>c. mem m (pg_round_down s + of_nat j) = Some c \<and> c \<noteq> 0" by simp
  qed
  then show ?thesis
    unfolding str_over_boundary_def by (rule sob_scan_True)
qed



lemma strlbond_over_prefix:
  assumes dst: "base dst \<noteq> NULL"
    and ofs: "pg_ofs (user_vtop m src) = pg_ofs src"
    and first: "\<forall>k < 4096 - unat (pg_ofs src). \<exists>c. mem m (user_vtop m src + of_nat k) = Some c \<and> c \<noteq> 0"
  shows "snd (str_over_boundary m (user_vtop m src)) = Returned True \<and>
     (\<exists>dst2. base dst2 \<noteq> NULL \<and>
        snd (strlbond m dst src sz) =
        snd (seq (str_over_boundary m (pg_round_down (src + PGSIZE)))
          (\<lambda>over'. if over' then stop_with (Panic ''assertion `!str_over_boundary (s)' failed.'')
             else strlcpy m dst2 (unat (min (PGSIZE - pg_ofs src) (sz - 1)))
                 (pg_round_down (src + PGSIZE)) (sz - min (PGSIZE - pg_ofs src) (sz - 1)))))"
proof -
  let ?s = "user_vtop m src"
  define n where "n = unat (min (PGSIZE - pg_ofs src) (sz - 1))"
  have over: "snd (str_over_boundary m ?s) = Returned True"
    using first by (intro str_over_boundary_True) (simp add: ofs)
  have "n \<le> unat (PGSIZE - pg_ofs src)"
    by (simp add: n_def unat_min_word)
  then have nr: "n \<le> 4096 - unat (pg_ofs src)"
    by (simp add: unat_rest_of_page unat_pg_ofs)
  have pres: "\<forall>k<n. mem m (?s + of_nat k) \<noteq> None"
  proof (intro allI impI)
    fix k assume "k < n"
    with nr have "k < 4096 - unat (pg_ofs src)" by simp
    with first obtain c where "mem m (?s + of_nat k) = Some c" by blast
    then show "mem m (?s + of_nat k) \<noteq> None" by simp
  qed
  define dst1 where
    "dst1 = dst\<lparr>bytes := \<lambda>i. if i < n then the (mem m (?s + of_nat i)) else bytes dst i\<rparr>"
  define dst2 where "dst2 = dst1\<lparr>bytes := (bytes dst1)(n := 0)\<rparr>"
  have mc: "snd (memcpy m dst 0 ?s n) = Returned dst1"
    unfolding dst1_def using dst pres by (rule memcpy_Returned_0)
  have "base dst1 \<noteq> NULL" using dst by (simp add: dst1_def)
  then have st: "snd (store dst1 n 0) = Returned dst2"
    unfolding dst2_def by (rule snd_store)
  have b2: "base dst2 \<noteq> NULL" using dst by (simp add: dst2_def dst1_def)
  have "snd (strlbond m dst src sz) =
        snd (seq (str_over_boundary m (pg_round_down (src + PGSIZE)))
          (\<lambda>over'. if over' then stop_with (Panic ''assertion `!str_over_boundary (s)' failed.'')
             else strlcpy m dst2 n
                 (pg_round_down (src + PGSIZE)) (sz - min (PGSIZE - pg_ofs src) (sz - 1))))"
    unfolding strlbond_over [OF over] n_def [symmetric]
    by (simp add: snd_seq mc st)
  with b2 over show ?thesis unfolding n_def by blast
qed

lemma strlbond_panics:
  assumes dst: "base dst \<noteq> NULL"
    and ofs: "pg_ofs (user_vtop m src) = pg_ofs src"
    and first: "\<forall>k < 4096 - unat (pg_ofs src). \<exists>c. mem m (user_vtop m src + of_nat k) = Some c \<and> c \<noteq> 0"
    and nxt: "\<forall>k < 4096. \<exists>c. mem m (pg_round_down (src + PGSIZE) + of_nat k) = Some c \<and> c \<noteq> 0"
  shows "snd (strlbond m dst src sz) =
           Stopped (Panic ''assertion `!str_over_boundary (s)' failed.'')"
proof -
  from strlbond_over_prefix [OF dst ofs first, of sz] obtain dst2 where
    r: "snd (strlbond m dst src sz) =
        snd (seq (str_over_boundary m (pg_round_down (src + PGSIZE)))
          (\<lambda>over'. if over' then stop_with (Panic ''assertion `!str_over_boundary (s)' failed.'')
             else strlcpy m dst2 (unat (min (PGSIZE - pg_ofs src) (sz - 1)))
                 (pg_round_down (src + PGSIZE)) (sz - min (PGSIZE - pg_ofs src) (sz - 1))))"
    by blast
  have "snd (str_over_boundary m (pg_round_down (src + PGSIZE))) = Returned True"
    using nxt by (intro str_over_boundary_True) (simp add: pg_ofs_pg_round_down)
  with r show ?thesis by (simp add: snd_seq)
qed


lemma unterminated_iff:
  "unterminated m src =
     (\<forall>k < (4096 - unat src mod 4096) + 4096. \<exists>c. source_byte m src k = Some c \<and> c \<noteq> 0)"
proof -
  have r: "unat (PGSIZE - pg_ofs src) + unat PGSIZE = (4096 - unat src mod 4096) + 4096"
    by (simp only: unat_rest_of_page) (simp add: PGSIZE_def)
  have c: "(case x of None \<Rightarrow> False | Some c \<Rightarrow> c \<noteq> 0) = (\<exists>c. x = Some c \<and> c \<noteq> 0)"
    for x :: "byte option"
    by (cases x) simp_all
  show ?thesis
    unfolding unterminated_def r
    by (simp only: list_all_iff c) (simp add: Ball_def)
qed

lemma strlbond_unterminated:
  assumes dst: "base dst \<noteq> NULL"
    and ofs: "pg_ofs (user_vtop m src) = pg_ofs src"
    and un: "unterminated m src"
  shows "snd (strlbond m dst src sz) =
           Stopped (Panic ''assertion `!str_over_boundary (s)' failed.'')"
proof -
  define r where "r = 4096 - unat src mod 4096"
  from un have all: "\<forall>k < r + 4096. \<exists>c. source_byte m src k = Some c \<and> c \<noteq> 0"
    by (simp add: unterminated_iff r_def)
  have first: "\<forall>k < 4096 - unat (pg_ofs src). \<exists>c. mem m (user_vtop m src + of_nat k) = Some c \<and> c \<noteq> 0"
  proof (intro allI impI)
    fix k assume "k < 4096 - unat (pg_ofs src)"
    then have k: "k < r" by (simp add: r_def unat_pg_ofs)
    then have "k < r + 4096" by simp
    with all have "\<exists>c. source_byte m src k = Some c \<and> c \<noteq> 0" by blast
    moreover from k have "source_byte m src k = mem m (user_vtop m src + of_nat k)"
      by (simp add: source_byte_eq r_def)
    ultimately show "\<exists>c. mem m (user_vtop m src + of_nat k) = Some c \<and> c \<noteq> 0" by simp
  qed
  have nxt: "\<forall>k < 4096. \<exists>c. mem m (pg_round_down (src + PGSIZE) + of_nat k) = Some c \<and> c \<noteq> 0"
  proof (intro allI impI)
    fix k :: nat assume "k < 4096"
    then have "r + k < r + 4096" by simp
    with all have "\<exists>c. source_byte m src (r + k) = Some c \<and> c \<noteq> 0" by blast
    moreover have "source_byte m src (r + k) = mem m (pg_round_down (src + PGSIZE) + of_nat k)"
      unfolding r_def by (rule source_byte_next)
    ultimately show "\<exists>c. mem m (pg_round_down (src + PGSIZE) + of_nat k) = Some c \<and> c \<noteq> 0"
      by simp
  qed
  from dst ofs first nxt show ?thesis by (rule strlbond_panics)
qed


subsection \<open>Evaluation on the concrete machine\<close>

lemma memcpy_numeral:
  "memcpy m dst d s (numeral k) =
     seq (load m s) (\<lambda>c. seq (store dst d c)
       (\<lambda>dst'. memcpy m dst' (Suc d) (s + 1) (pred_numeral k)))"
  by (simp add: numeral_eq_Suc)

lemma seq_Returned_pair: "seq (es, Returned x) k = (case k x of (es', r) \<Rightarrow> (es @ es', r))"
  by (simp add: seq_def split: prod.splits)

lemma seq_Stopped_pair: "seq (es, Stopped st) k = (es, Stopped st)"
  by (simp add: seq_def)

lemma emit_pair: "emit e (es, r) = (e # es, r)"
  by (simp add: emit_def)

lemmas eval_simps =
  seq_Returned_pair seq_Stopped_pair emit_pair ret_def stop_with_def load_def store_def
  memcpy_numeral numeral_2_eq_2 [symmetric] numeral_3_eq_3 [symmetric]

lemmas page_defs = pg_ofs_def pg_round_down_def PGSIZE_def PGMASK_def PHYS_BASE_def

lemmas demo_defs = mmu_def demo_def demo_pagedir_def demo_ram_def


lemma demo_mem_xyz:
  "mem demo 0xC0283FFE = Some 0x78" "mem demo 0xC0283FFF = Some 0x79"
  "mem demo 0x0804B000 = Some 0x7A" "mem demo 0x0804B001 = Some 0"
  by (simp_all add: page_defs demo_defs)

lemma demo_vtop:
  "user_vtop demo 0x08048FFC = 0xC0281FFC"
  "user_vtop demo 0x0804AFFE = 0xC0283FFE"
  "user_vtop demo 0x0804BFFF = 0xC0285FFF"
  "user_vtop demo 0x08048100 = 0xC0281100"
  "user_vtop demo 0xBFFFFF00 = 0xC0280F00"
  "user_vtop demo 0xBFFFFF20 = 0xC0280F20"
  "user_vtop demo 0xBFFFFF30 = 0xC0280F30"
  "user_vtop demo 0x08049000 = NULL"
  by (simp_all add: user_vtop_def page_defs demo_defs)

lemma demo_sob:
  "str_over_boundary demo 0xC0281FFC =
     ([Load 0xC0281FFC, Load 0xC0281FFD, Load 0xC0281FFE, Load 0xC0281FFF], Returned False)"
  "str_over_boundary demo 0xC0283FFE = ([Load 0xC0283FFE, Load 0xC0283FFF], Returned True)"
  "str_over_boundary demo 0x0804B000 = ([Load 0x0804B000, Load 0x0804B001], Returned False)"
  "str_over_boundary demo 0xC0285FFF = ([Load 0xC0285FFF], Returned True)"
  "str_over_boundary demo 0x0804C000 = ([Load 0x0804C000], Stopped (PageFault 0x0804C000))"
  "str_over_boundary demo 0xC0281100 =
     ([Load 0xC0281100, Load 0xC0281101, Load 0xC0281102], Returned False)"
  by (simp_all add: str_over_boundary_def sob_scan.simps eval_simps page_defs demo_defs)

lemma demo_strlen:
  "strlen demo 0xC0281FFC =
     ([Load 0xC0281FFC, Load 0xC0281FFD, Load 0xC0281FFE, Load 0xC0281FFF], Returned 3)"
  "strlen demo 0x0804B000 = ([Load 0x0804B000, Load 0x0804B001], Returned 1)"
  "strlen demo 0xC0281100 = ([Load 0xC0281100, Load 0xC0281101, Load 0xC0281102], Returned 2)"
  by (simp_all add: strlen_def strlen_from.simps eval_simps page_defs demo_defs)




subsection \<open>The machine with no terminator\<close>

lemmas crowded_defs = mmu_def crowded_def crowded_ram_def demo_def demo_pagedir_def

lemma crowded_vtop:
  "user_vtop crowded 0x0804AFFE = 0xC0283FFE"
  "user_vtop crowded 0xBFFFFF40 = 0xC0280F40"
  "user_vtop crowded 0xBFFFFF50 = 0xC0280F50"
  "user_vtop crowded 0xBFFFFF60 = 0xC0280F60"
  "user_vtop crowded 0xBFFFFF70 = 0xC0280F70"
  "user_vtop crowded 0xBFFFFF80 = 0xC0280F80"
  "user_vtop crowded 0xBFFFFF90 = 0xC0280F90"
  "user_vtop crowded 0xBFFFFFA0 = 0xC0280FA0"
  "user_vtop crowded 0xBFFFFFB0 = 0xC0280FB0"
  "user_vtop crowded 0xBFFFFFC0 = 0xC0280FC0"
  "user_vtop crowded 0xBFFFFFD0 = 0xC0280FD0"
  by (simp_all add: user_vtop_def page_defs crowded_defs)

lemma crowded_mem_first:
  "mem crowded 0xC0283FFE = Some 0x78" "mem crowded 0xC0283FFF = Some 0x78"
  by (simp_all add: page_defs crowded_defs)

lemma crowded_mem_next:
  assumes "j < 4096"
  shows "mem crowded (0x0804B000 + of_nat j) = Some 0x78"
proof -
  let ?a = "(0x0804B000 :: addr) + of_nat j"
  have p: "pg_round_down (0x0804B000 :: addr) = 0x0804B000"
    by (simp add: page_defs)
  have rd: "pg_round_down ?a = 0x0804B000"
    using pg_round_down_page_plus [OF assms, of "0x0804B000"] by (simp only: p)
  have un: "unat ?a = 134524928 + j"
    using unat_page_plus [OF assms, of "0x0804B000"] by (simp only: p) simp
  have lt: "?a < PHYS_BASE"
    using assms by (simp add: word_less_nat_alt un PHYS_BASE_def)
  have "unat (pg_ofs ?a) = j"
    using pg_ofs_page_plus [OF assms, of "0x0804B000"] by (simp only: p)
  moreover have "unat (of_nat j :: addr) = j"
    using assms by (simp add: unat_of_nat take_bit_eq_mod)
  ultimately have of: "pg_ofs ?a = of_nat j"
    by (simp only: word_unat_eq_iff)
  have q: "pg_round_down (0xC0285000 :: addr) = 0xC0285000"
    by (simp add: page_defs)
  have rk: "pg_round_down ((0xC0285000 :: addr) + of_nat j) = 0xC0285000"
    using pg_round_down_page_plus [OF assms, of "0xC0285000"] by (simp only: q)
  have ram: "crowded_ram (0xC0285000 + of_nat j) = Some 0x78"
    by (simp add: crowded_ram_def rk)
  have pd: "demo_pagedir 0x0804B000 = Some 0xC0285000"
    by (simp add: demo_pagedir_def)
  have "mem crowded ?a = mmu demo_pagedir crowded_ram ?a"
    by (simp add: crowded_def)
  also have "\<dots> = crowded_ram (0xC0285000 + of_nat j)"
    using lt by (simp only: mmu_def rd pd of if_True option.case)
  finally show ?thesis by (simp only: ram)
qed

lemma crowded_unterminated: "unterminated crowded 0x0804AFFE"
proof -
  have r: "4096 - unat (0x0804AFFE :: addr) mod 4096 = 2"
    by simp
  have s': "pg_round_down (0x0804AFFE + PGSIZE) = 0x0804B000"
    by (simp add: page_defs)
  have "\<exists>c. source_byte crowded 0x0804AFFE k = Some c \<and> c \<noteq> 0" if k: "k < 2 + 4096" for k
  proof (cases "k < 2")
    case True
    then have "k = 0 \<or> k = 1" by arith
    then show ?thesis
      by (auto simp: source_byte_eq crowded_vtop crowded_mem_first)
  next
    case False
    with k have j: "k - 2 < 4096" by arith
    from False have "source_byte crowded 0x0804AFFE k = mem crowded (0x0804B000 + of_nat (k - 2))"
      by (simp add: source_byte_eq s')
    with crowded_mem_next [OF j] show ?thesis by simp
  qed
  then show ?thesis
    by (simp only: unterminated_iff r) blast
qed

lemma crowded_ofs: "pg_ofs (user_vtop crowded 0x0804AFFE) = pg_ofs 0x0804AFFE"
  by (simp add: crowded_vtop page_defs)

lemma crowded_strlbond_stops:
  "snd (strlbond crowded (scratch_page crowded 0xC0290000) 0x0804AFFE sz) =
     Stopped (Panic ''assertion `!str_over_boundary (s)' failed.'')"
  by (rule strlbond_unterminated) (simp_all add: scratch_page_def crowded_ofs crowded_unterminated)

subsection \<open>Claims about the copier\<close>

text \<open>
  Claim C9. Every load of \<open>str_over_boundary\<close> is at an offset of the page of \<open>s\<close> between
  the offset of \<open>s\<close> and the last byte of that page, so no byte of the following page is
  read. The result is false exactly when one of these bytes is NUL and every byte before it,
  from the offset of \<open>s\<close> on, is present; and where the rest of the page is present, the scan
  returns, false when one of these bytes is NUL and true when none is.
\<close>

theorem C9_scan_stays_in_page:
  "(\<forall>e \<in> set (fst (str_over_boundary m s)).
      \<exists>k. unat (pg_ofs s) \<le> k \<and> k < unat PGSIZE \<and> e = Load (pg_round_down s + of_nat k) \<and>
          pg_round_down (pg_round_down s + of_nat k) = pg_round_down s \<and>
          unat (pg_ofs (pg_round_down s + of_nat k)) = k) \<and>
   (snd (str_over_boundary m s) = Returned False) =
     (\<exists>k. unat (pg_ofs s) \<le> k \<and> k < unat PGSIZE \<and>
          mem m (pg_round_down s + of_nat k) = Some 0 \<and>
          (\<forall>j. unat (pg_ofs s) \<le> j \<and> j < k \<longrightarrow> mem m (pg_round_down s + of_nat j) \<noteq> None)) \<and>
   ((\<forall>k. unat (pg_ofs s) \<le> k \<and> k < unat PGSIZE \<longrightarrow> mem m (pg_round_down s + of_nat k) \<noteq> None)
      \<longrightarrow> snd (str_over_boundary m s) =
           Returned (\<not> (\<exists>k. unat (pg_ofs s) \<le> k \<and> k < unat PGSIZE \<and>
                             mem m (pg_round_down s + of_nat k) = Some 0)))"
proof (intro conjI ballI impI)
  fix e assume "e \<in> set (fst (str_over_boundary m s))"
  then obtain k where k: "unat (pg_ofs s) \<le> k" "k < 4096" "e = Load (pg_round_down s + of_nat k)"
    unfolding str_over_boundary_def by (blast dest: sob_scan_loads)
  from k(2) have "pg_round_down (pg_round_down s + of_nat k) = pg_round_down s"
    by (rule pg_round_down_page_plus)
  moreover from k(2) have "unat (pg_ofs (pg_round_down s + of_nat k)) = k"
    by (rule pg_ofs_page_plus)
  ultimately show "\<exists>k. unat (pg_ofs s) \<le> k \<and> k < unat PGSIZE \<and>
      e = Load (pg_round_down s + of_nat k) \<and>
      pg_round_down (pg_round_down s + of_nat k) = pg_round_down s \<and>
      unat (pg_ofs (pg_round_down s + of_nat k)) = k"
    using k by (intro exI [of _ k]) (simp add: PGSIZE_def)
next
  show "(snd (str_over_boundary m s) = Returned False) =
     (\<exists>k. unat (pg_ofs s) \<le> k \<and> k < unat PGSIZE \<and>
          mem m (pg_round_down s + of_nat k) = Some 0 \<and>
          (\<forall>j. unat (pg_ofs s) \<le> j \<and> j < k \<longrightarrow> mem m (pg_round_down s + of_nat j) \<noteq> None))"
    unfolding str_over_boundary_def by (simp add: sob_scan_False_iff PGSIZE_def)
next
  assume "\<forall>k. unat (pg_ofs s) \<le> k \<and> k < unat PGSIZE \<longrightarrow>
    mem m (pg_round_down s + of_nat k) \<noteq> None"
  then have "\<forall>k. unat (pg_ofs s) \<le> k \<and> k < 4096 \<longrightarrow> mem m (pg_round_down s + of_nat k) \<noteq> None"
    by (simp add: PGSIZE_def)
  then show "snd (str_over_boundary m s) =
      Returned (\<not> (\<exists>k. unat (pg_ofs s) \<le> k \<and> k < unat PGSIZE \<and>
                        mem m (pg_round_down s + of_nat k) = Some 0))"
    unfolding str_over_boundary_def by (simp add: sob_scan_result PGSIZE_def)
qed

lemma filled_sob:
  "str_over_boundary filled 0xC0281FFE = ([Load 0xC0281FFE, Load 0xC0281FFF], Returned False)"
  by (simp add: str_over_boundary_def sob_scan.simps eval_simps page_defs filled_def)

theorem C9_scan_stays_in_page_witness:
  "str_over_boundary filled 0xC0281FFE = ([Load 0xC0281FFE, Load 0xC0281FFF], Returned False) \<and>
   pg_round_down 0xC0281FFE = 0xC0281000 \<and> unat (pg_ofs 0xC0281FFE) = 4094 \<and>
   mem filled (0xC0281000 + of_nat 4095) = Some 0 \<and>
   (\<exists>k. unat (pg_ofs 0xC0281FFE) \<le> k \<and> k < unat PGSIZE \<and>
        mem filled (pg_round_down 0xC0281FFE + of_nat k) = Some 0)"
proof -
  have present: "\<forall>k. unat (pg_ofs 0xC0281FFE) \<le> k \<and> k < unat PGSIZE \<longrightarrow>
      mem filled (pg_round_down 0xC0281FFE + of_nat k) \<noteq> None"
    by (simp add: filled_def)
  from C9_scan_stays_in_page [of filled "0xC0281FFE"] present
  have "snd (str_over_boundary filled 0xC0281FFE) =
      Returned (\<not> (\<exists>k. unat (pg_ofs 0xC0281FFE) \<le> k \<and> k < unat PGSIZE \<and>
                        mem filled (pg_round_down 0xC0281FFE + of_nat k) = Some 0))"
    by blast
  then have "\<exists>k. unat (pg_ofs 0xC0281FFE) \<le> k \<and> k < unat PGSIZE \<and>
        mem filled (pg_round_down 0xC0281FFE + of_nat k) = Some 0"
    by (simp add: filled_sob) blast
  moreover have "pg_round_down 0xC0281FFE = 0xC0281000" "unat (pg_ofs 0xC0281FFE) = 4094"
    "mem filled (0xC0281000 + of_nat 4095) = Some 0"
    by (simp_all add: page_defs filled_def)
  ultimately show ?thesis using filled_sob by simp
qed








text \<open>
  Claim C2 fails on the code. The string \<open>xyz\<close> starts two bytes before the end of the page
  \<open>0x0804A000\<close>. The copier calls the translator once, for \<open>src\<close>; the bytes of the
  following page are loaded at the user address \<open>0x0804B000\<close> itself, which no call of the
  translator has validated. Where the following page is not mapped (the source \<open>0x0804BFFF\<close>),
  the load at its user address traps in the kernel.
\<close>

theorem C2_next_page_not_translated:
  "strlbond demo (scratch_page demo 0xC0290000) 0x0804AFFE 4096 =
     ([Translate 0x0804AFFE, Load 0xC0283FFE, Load 0xC0283FFF, Load 0xC0283FFE, Load 0xC0283FFF,
       Load 0x0804B000, Load 0x0804B001, Load 0x0804B000, Load 0x0804B001, Load 0x0804B000],
      Returned \<lparr>base = 0xC0290000,
                 bytes = (fresh_page demo)(0 := 0x78, 1 := 0x79, 2 := 0x7A, 3 := 0)\<rparr>) \<and>
   translator_calls (fst (strlbond demo (scratch_page demo 0xC0290000) 0x0804AFFE 4096)) =
     [Translate 0x0804AFFE] \<and>
   pg_round_down (0x0804AFFE + PGSIZE) = 0x0804B000 \<and>
   strlbond demo (scratch_page demo 0xC0290000) 0x0804BFFF 4096 =
     ([Translate 0x0804BFFF, Load 0xC0285FFF, Load 0xC0285FFF, Load 0x0804C000],
      Stopped (PageFault 0x0804C000)) \<and>
   user_vtop demo 0x0804C000 = NULL"
proof -
  have 1: "strlbond demo (scratch_page demo 0xC0290000) 0x0804AFFE 4096 =
     ([Translate 0x0804AFFE, Load 0xC0283FFE, Load 0xC0283FFF, Load 0xC0283FFE, Load 0xC0283FFF,
       Load 0x0804B000, Load 0x0804B001, Load 0x0804B000, Load 0x0804B001, Load 0x0804B000],
      Returned \<lparr>base = 0xC0290000,
                 bytes = (fresh_page demo)(0 := 0x78, 1 := 0x79, 2 := 0x7A, 3 := 0)\<rparr>)"
    by (simp add: strlbond_def strlcpy_def scratch_page_def demo_vtop demo_sob demo_strlen
        demo_mem_xyz eval_simps page_defs)
  have q: "mem demo 0xC0285FFF = Some 0x71"
    by (simp add: page_defs demo_defs)
  have 2: "strlbond demo (scratch_page demo 0xC0290000) 0x0804BFFF 4096 =
     ([Translate 0x0804BFFF, Load 0xC0285FFF, Load 0xC0285FFF, Load 0x0804C000],
      Stopped (PageFault 0x0804C000))"
    by (simp add: strlbond_def strlcpy_def scratch_page_def demo_vtop demo_sob demo_strlen
        q eval_simps page_defs)
  have 3: "user_vtop demo 0x0804C000 = NULL" "pg_round_down (0x0804AFFE + PGSIZE) = 0x0804B000"
    by (simp_all add: user_vtop_def page_defs demo_defs)
  show ?thesis
    by (simp add: 1 2 3 translator_calls_def)
qed

subsection \<open>The kernel pool in a run\<close>

lemma fst_seq:
  "fst (seq r k) = (case snd r of Stopped st \<Rightarrow> fst r | Returned x \<Rightarrow> fst r @ fst (k x))"
  by (simp add: seq_def split: outcome.splits)

lemma palloc_events_append [simp]:
  "palloc_events (xs @ ys) = palloc_events xs @ palloc_events ys"
  by (simp add: palloc_events_def)

lemma palloc_events_Nil [simp]: "palloc_events [] = []"
  by (simp add: palloc_events_def)

lemma palloc_events_Cons:
  "palloc_events (e # es) = (if is_palloc e then e # palloc_events es else palloc_events es)"
  by (simp add: palloc_events_def)

lemma palloc_seq:
  "palloc_events (fst r) = [] \<Longrightarrow> (\<And>x. palloc_events (fst (k x)) = []) \<Longrightarrow>
   palloc_events (fst (seq r k)) = []"
  by (simp add: fst_seq split: outcome.splits)

lemma palloc_load [simp]: "palloc_events (fst (load m a)) = []"
  by (simp add: load_def palloc_events_Cons split: option.splits)

lemma palloc_store [simp]: "palloc_events (fst (store dst i c)) = []"
  by (simp add: store_def)

lemma palloc_memcpy [simp]: "palloc_events (fst (memcpy m dst d s n)) = []"
proof (induction n arbitrary: dst d s)
  case 0
  show ?case by simp
next
  case (Suc n)
  show ?case
    by (simp only: memcpy.simps) (intro palloc_seq palloc_load palloc_store Suc.IH)
qed

lemma palloc_sob_scan [simp]: "palloc_events (fst (sob_scan m page offset)) = []"
proof -
  have "\<not> is_palloc e" if "e \<in> set (fst (sob_scan m page offset))" for e
    using sob_scan_loads [OF that] by auto
  then show ?thesis
    by (simp add: palloc_events_def filter_empty_conv)
qed

lemma palloc_strlen_from [simp]: "palloc_events (fst (strlen_from m s k)) = []"
proof (induction m s k rule: strlen_from.induct)
  case (1 m s k)
  show ?case
  proof (cases "k < 2 ^ 32")
    case False
    then show ?thesis by (simp add: strlen_from.simps [of m s k])
  next
    case lt: True
    show ?thesis
    proof (cases "mem m (s + of_nat k)")
      case None
      with lt show ?thesis
        by (simp add: strlen_from.simps [of m s k] palloc_events_Cons)
    next
      case (Some c)
      show ?thesis
      proof (cases "c = 0")
        case True
        with Some lt show ?thesis
          by (simp add: strlen_from.simps [of m s k] palloc_events_Cons)
      next
        case False
        with "1.IH" [OF lt Some False] Some lt show ?thesis
          by (simp add: strlen_from.simps [of m s k] palloc_events_Cons)
      qed
    qed
  qed
qed

lemma palloc_strlcpy [simp]: "palloc_events (fst (strlcpy m dst d s sz)) = []"
  unfolding strlcpy_def Let_def
  by (intro palloc_seq) (simp_all add: strlen_def palloc_seq)

lemma palloc_str_over_boundary [simp]: "palloc_events (fst (str_over_boundary m s)) = []"
  by (simp add: str_over_boundary_def)

lemma palloc_strlbond [simp]: "palloc_events (fst (strlbond m dst src sz)) = []"
  by (simp add: strlbond_def Let_def fst_seq palloc_events_Cons
      split: outcome.splits prod.splits)

lemma palloc_write_loop [simp]: "palloc_events (fst (write_loop m fd buf ubuf sz wrote)) = []"
proof (induction m fd buf ubuf sz wrote rule: write_loop.induct)
  case (1 m fd buf ubuf sz wrote)
  show ?case
  proof (cases "0 < sz")
    case False
    then show ?thesis by (simp add: write_loop.simps [of m fd buf ubuf sz wrote])
  next
    case True
    show ?thesis
    proof (cases "fd = STDOUT_FILENO")
      case out: True
      have "palloc_events (fst (seq (strlbond m buf ubuf (min (sz + 1) PGSIZE)) (\<lambda>buf'.
            emit (Putbuf (map (bytes buf') [0 ..< unat (min sz (PGSIZE - 1))]))
              (write_loop m fd buf' ubuf (sz - min sz (PGSIZE - 1))
                 (wrote + min sz (PGSIZE - 1)))))) = []"
        using "1.IH"(1) [OF True out]
        by (intro palloc_seq) (simp_all add: palloc_events_Cons)
      with True out show ?thesis
        by (subst write_loop.simps) simp
    next
      case other: False
      have "palloc_events (fst (seq (strlbond m buf ubuf (min (sz + 1) PGSIZE)) (\<lambda>buf'.
              write_loop m fd buf' ubuf (sz - min sz (PGSIZE - 1))
                 (wrote + min sz (PGSIZE - 1))))) = []"
        using "1.IH"(2) [OF True other]
        by (intro palloc_seq) simp_all
      with True other show ?thesis
        by (subst write_loop.simps) simp
    qed
  qed
qed

lemma pool_restored:
  "list_all (\<lambda>p. p \<noteq> NULL) pool \<Longrightarrow> palloc_get_page pool = (page, pool1) \<Longrightarrow>
   palloc_free_page page pool1 = pool"
  by (cases pool) (auto simp: palloc_get_page_def palloc_free_page_def)

lemma exec_pool:
  assumes "list_all (\<lambda>p. p \<noteq> NULL) (kernel_pool st)"
    and "snd (exec m p st) = Returned (v, st')"
  shows "kernel_pool st' = kernel_pool st \<and>
         palloc_events (fst (exec m p st)) =
           (if PHYS_BASE \<le> p then []
            else [PallocGet (fst (palloc_get_page (kernel_pool st))),
                  PallocFree (fst (palloc_get_page (kernel_pool st)))])"
proof (cases "PHYS_BASE \<le> p")
  case True
  with assms(2) show ?thesis by (simp add: exec_def)
next
  case False
  obtain page pool1 where g: "palloc_get_page (kernel_pool st) = (page, pool1)"
    by (cases "palloc_get_page (kernel_pool st)")
  from pool_restored [OF assms(1) g] have r: "palloc_free_page page pool1 = kernel_pool st" .
  from assms(2) False g r show ?thesis
    by (auto simp: exec_def fst_seq snd_seq Let_def palloc_events_Cons
        split: outcome.splits if_splits)
qed

lemma create_pool:
  assumes "list_all (\<lambda>p. p \<noteq> NULL) (kernel_pool st)"
    and "snd (create m p n st) = Returned (v, st')"
  shows "kernel_pool st' = kernel_pool st \<and>
         palloc_events (fst (create m p n st)) =
           (if PHYS_BASE \<le> p then []
            else [PallocGet (fst (palloc_get_page (kernel_pool st))),
                  PallocFree (fst (palloc_get_page (kernel_pool st)))])"
proof (cases "PHYS_BASE \<le> p")
  case True
  with assms(2) show ?thesis by (simp add: create_def)
next
  case False
  obtain page pool1 where g: "palloc_get_page (kernel_pool st) = (page, pool1)"
    by (cases "palloc_get_page (kernel_pool st)")
  from pool_restored [OF assms(1) g] have r: "palloc_free_page page pool1 = kernel_pool st" .
  from assms(2) False g r show ?thesis
    by (auto simp: create_def fst_seq snd_seq Let_def palloc_events_Cons
        split: outcome.splits if_splits)
qed

lemma remove_pool:
  assumes "list_all (\<lambda>p. p \<noteq> NULL) (kernel_pool st)"
    and "snd (remove m p st) = Returned (v, st')"
  shows "kernel_pool st' = kernel_pool st \<and>
         palloc_events (fst (remove m p st)) =
           (if PHYS_BASE \<le> p then []
            else [PallocGet (fst (palloc_get_page (kernel_pool st))),
                  PallocFree (fst (palloc_get_page (kernel_pool st)))])"
proof (cases "PHYS_BASE \<le> p")
  case True
  with assms(2) show ?thesis by (simp add: remove_def)
next
  case False
  obtain page pool1 where g: "palloc_get_page (kernel_pool st) = (page, pool1)"
    by (cases "palloc_get_page (kernel_pool st)")
  from pool_restored [OF assms(1) g] have r: "palloc_free_page page pool1 = kernel_pool st" .
  from assms(2) False g r show ?thesis
    by (auto simp: remove_def fst_seq snd_seq Let_def palloc_events_Cons
        split: outcome.splits if_splits)
qed

lemma sys_open_pool:
  assumes "list_all (\<lambda>p. p \<noteq> NULL) (kernel_pool st)"
    and "snd (sys_open m p st) = Returned (v, st')"
  shows "kernel_pool st' = kernel_pool st \<and>
         palloc_events (fst (sys_open m p st)) =
           (if PHYS_BASE \<le> p then []
            else [PallocGet (fst (palloc_get_page (kernel_pool st))),
                  PallocFree (fst (palloc_get_page (kernel_pool st)))])"
proof (cases "PHYS_BASE \<le> p")
  case True
  with assms(2) show ?thesis by (simp add: sys_open_def)
next
  case False
  obtain page pool1 where g: "palloc_get_page (kernel_pool st) = (page, pool1)"
    by (cases "palloc_get_page (kernel_pool st)")
  from pool_restored [OF assms(1) g] have r: "palloc_free_page page pool1 = kernel_pool st" .
  from assms(2) False g r show ?thesis
    by (auto simp: sys_open_def fst_seq snd_seq Let_def palloc_events_Cons
        split: outcome.splits if_splits)
qed

lemma sys_write_pool:
  assumes "list_all (\<lambda>p. p \<noteq> NULL) (kernel_pool st)"
    and "snd (sys_write m fd p n st) = Returned (v, st')"
  shows "kernel_pool st' = kernel_pool st \<and>
         palloc_events (fst (sys_write m fd p n st)) =
           (if PHYS_BASE \<le> p then []
            else [PallocGet (fst (palloc_get_page (kernel_pool st))),
                  PallocFree (fst (palloc_get_page (kernel_pool st)))])"
proof (cases "PHYS_BASE \<le> p")
  case True
  with assms(2) show ?thesis by (simp add: sys_write_def)
next
  case False
  obtain page pool1 where g: "palloc_get_page (kernel_pool st) = (page, pool1)"
    by (cases "palloc_get_page (kernel_pool st)")
  from pool_restored [OF assms(1) g] have r: "palloc_free_page page pool1 = kernel_pool st" .
  from assms(2) False g r show ?thesis
    by (auto simp: sys_write_def fst_seq snd_seq Let_def palloc_events_Cons
        split: outcome.splits if_splits)
qed

lemma exec_scratch:
  assumes pool: "list_all (\<lambda>q. q \<noteq> NULL) (kernel_pool st)"
    and pg: "pg = fst (palloc_get_page (kernel_pool st))"
    and user: "\<not> PHYS_BASE \<le> p"
  shows "palloc_events (fst (exec m p st)) =
           PallocGet pg # (case snd (strlbond m (scratch_page m pg) p PGSIZE) of
                             Returned buf \<Rightarrow> [PallocFree pg] | Stopped x \<Rightarrow> [])"
    and "snd (exec m p st) =
           (case snd (strlbond m (scratch_page m pg) p PGSIZE) of
              Returned buf \<Rightarrow>
                if get_thread_by_tid m (process_execute m (cstring buf))
                then Returned (process_execute m (cstring buf), st)
                else Stopped (Panic ''assertion `child' failed.'')
            | Stopped x \<Rightarrow> Stopped x)"
proof -
  obtain pool1 where g: "palloc_get_page (kernel_pool st) = (pg, pool1)"
    using pg by (cases "palloc_get_page (kernel_pool st)") simp
  from pool_restored [OF pool g] have r: "palloc_free_page pg pool1 = kernel_pool st" .
  show "palloc_events (fst (exec m p st)) =
           PallocGet pg # (case snd (strlbond m (scratch_page m pg) p PGSIZE) of
                             Returned buf \<Rightarrow> [PallocFree pg] | Stopped x \<Rightarrow> [])"
    using user by (simp add: exec_def g fst_seq Let_def palloc_events_Cons split: outcome.splits)
  show "snd (exec m p st) =
           (case snd (strlbond m (scratch_page m pg) p PGSIZE) of
              Returned buf \<Rightarrow>
                if get_thread_by_tid m (process_execute m (cstring buf))
                then Returned (process_execute m (cstring buf), st)
                else Stopped (Panic ''assertion `child' failed.'')
            | Stopped x \<Rightarrow> Stopped x)"
    using user by (simp add: exec_def g r snd_seq Let_def split: outcome.splits)
qed

lemma create_scratch:
  assumes pool: "list_all (\<lambda>q. q \<noteq> NULL) (kernel_pool st)"
    and pg: "pg = fst (palloc_get_page (kernel_pool st))"
    and user: "\<not> PHYS_BASE \<le> p"
  shows "palloc_events (fst (create m p n st)) =
           PallocGet pg # (case snd (strlbond m (scratch_page m pg) p PGSIZE) of
                             Returned buf \<Rightarrow> [PallocFree pg] | Stopped x \<Rightarrow> [])"
    and "snd (create m p n st) =
           (case snd (strlbond m (scratch_page m pg) p PGSIZE) of
              Returned buf \<Rightarrow> Returned (filesys_create m (cstring buf) n, st)
            | Stopped x \<Rightarrow> Stopped x)"
proof -
  obtain pool1 where g: "palloc_get_page (kernel_pool st) = (pg, pool1)"
    using pg by (cases "palloc_get_page (kernel_pool st)") simp
  from pool_restored [OF pool g] have r: "palloc_free_page pg pool1 = kernel_pool st" .
  show "palloc_events (fst (create m p n st)) =
           PallocGet pg # (case snd (strlbond m (scratch_page m pg) p PGSIZE) of
                             Returned buf \<Rightarrow> [PallocFree pg] | Stopped x \<Rightarrow> [])"
    using user by (simp add: create_def g fst_seq Let_def palloc_events_Cons split: outcome.splits)
  show "snd (create m p n st) =
           (case snd (strlbond m (scratch_page m pg) p PGSIZE) of
              Returned buf \<Rightarrow> Returned (filesys_create m (cstring buf) n, st)
            | Stopped x \<Rightarrow> Stopped x)"
    using user by (simp add: create_def g r snd_seq Let_def split: outcome.splits)
qed

lemma remove_scratch:
  assumes pool: "list_all (\<lambda>q. q \<noteq> NULL) (kernel_pool st)"
    and pg: "pg = fst (palloc_get_page (kernel_pool st))"
    and user: "\<not> PHYS_BASE \<le> p"
  shows "palloc_events (fst (remove m p st)) =
           PallocGet pg # (case snd (strlbond m (scratch_page m pg) p PGSIZE) of
                             Returned buf \<Rightarrow> [PallocFree pg] | Stopped x \<Rightarrow> [])"
    and "snd (remove m p st) =
           (case snd (strlbond m (scratch_page m pg) p PGSIZE) of
              Returned buf \<Rightarrow> Returned (filesys_remove m (cstring buf), st)
            | Stopped x \<Rightarrow> Stopped x)"
proof -
  obtain pool1 where g: "palloc_get_page (kernel_pool st) = (pg, pool1)"
    using pg by (cases "palloc_get_page (kernel_pool st)") simp
  from pool_restored [OF pool g] have r: "palloc_free_page pg pool1 = kernel_pool st" .
  show "palloc_events (fst (remove m p st)) =
           PallocGet pg # (case snd (strlbond m (scratch_page m pg) p PGSIZE) of
                             Returned buf \<Rightarrow> [PallocFree pg] | Stopped x \<Rightarrow> [])"
    using user by (simp add: remove_def g fst_seq Let_def palloc_events_Cons split: outcome.splits)
  show "snd (remove m p st) =
           (case snd (strlbond m (scratch_page m pg) p PGSIZE) of
              Returned buf \<Rightarrow> Returned (filesys_remove m (cstring buf), st)
            | Stopped x \<Rightarrow> Stopped x)"
    using user by (simp add: remove_def g r snd_seq Let_def split: outcome.splits)
qed

lemma sys_open_scratch:
  assumes pool: "list_all (\<lambda>q. q \<noteq> NULL) (kernel_pool st)"
    and pg: "pg = fst (palloc_get_page (kernel_pool st))"
    and user: "\<not> PHYS_BASE \<le> p"
  shows "palloc_events (fst (sys_open m p st)) =
           PallocGet pg # (case snd (strlbond m (scratch_page m pg) p PGSIZE) of
                             Returned buf \<Rightarrow> [PallocFree pg] | Stopped x \<Rightarrow> [])"
    and "snd (sys_open m p st) =
           (case snd (strlbond m (scratch_page m pg) p PGSIZE) of
              Returned buf \<Rightarrow>
                if filesys_open m (cstring buf) = NULL \<or> \<not> calloc_succeeds m
                then Returned (- 1, st)
                else Returned (lastfd st + 1,
                       st\<lparr>lastfd := lastfd st + 1,
                          open_list := open_list st @
                            [(lastfd st + 1, filesys_open m (cstring buf))]\<rparr>)
            | Stopped x \<Rightarrow> Stopped x)"
proof -
  obtain pool1 where g: "palloc_get_page (kernel_pool st) = (pg, pool1)"
    using pg by (cases "palloc_get_page (kernel_pool st)") simp
  from pool_restored [OF pool g] have r: "palloc_free_page pg pool1 = kernel_pool st" .
  show "palloc_events (fst (sys_open m p st)) =
           PallocGet pg # (case snd (strlbond m (scratch_page m pg) p PGSIZE) of
                             Returned buf \<Rightarrow> [PallocFree pg] | Stopped x \<Rightarrow> [])"
    using user
    by (simp add: sys_open_def g fst_seq Let_def palloc_events_Cons split: outcome.splits)
  show "snd (sys_open m p st) =
           (case snd (strlbond m (scratch_page m pg) p PGSIZE) of
              Returned buf \<Rightarrow>
                if filesys_open m (cstring buf) = NULL \<or> \<not> calloc_succeeds m
                then Returned (- 1, st)
                else Returned (lastfd st + 1,
                       st\<lparr>lastfd := lastfd st + 1,
                          open_list := open_list st @
                            [(lastfd st + 1, filesys_open m (cstring buf))]\<rparr>)
            | Stopped x \<Rightarrow> Stopped x)"
    using user by (simp add: sys_open_def g r snd_seq Let_def split: outcome.splits)
qed

lemma sys_write_scratch:
  assumes pool: "list_all (\<lambda>q. q \<noteq> NULL) (kernel_pool st)"
    and pg: "pg = fst (palloc_get_page (kernel_pool st))"
    and user: "\<not> PHYS_BASE \<le> p"
  shows "palloc_events (fst (sys_write m fd p n st)) =
           PallocGet pg # (case snd (write_loop m fd (scratch_page m pg) p n 0) of
                             Returned wrote \<Rightarrow> [PallocFree pg] | Stopped x \<Rightarrow> [])"
    and "snd (sys_write m fd p n st) =
           (case snd (write_loop m fd (scratch_page m pg) p n 0) of
              Returned wrote \<Rightarrow> Returned (wrote, st)
            | Stopped x \<Rightarrow> Stopped x)"
proof -
  obtain pool1 where g: "palloc_get_page (kernel_pool st) = (pg, pool1)"
    using pg by (cases "palloc_get_page (kernel_pool st)") simp
  from pool_restored [OF pool g] have r: "palloc_free_page pg pool1 = kernel_pool st" .
  show "palloc_events (fst (sys_write m fd p n st)) =
           PallocGet pg # (case snd (write_loop m fd (scratch_page m pg) p n 0) of
                             Returned wrote \<Rightarrow> [PallocFree pg] | Stopped x \<Rightarrow> [])"
    using user
    by (simp add: sys_write_def g fst_seq Let_def palloc_events_Cons split: outcome.splits)
  show "snd (sys_write m fd p n st) =
           (case snd (write_loop m fd (scratch_page m pg) p n 0) of
              Returned wrote \<Rightarrow> Returned (wrote, st)
            | Stopped x \<Rightarrow> Stopped x)"
    using user by (simp add: sys_write_def g r snd_seq Let_def split: outcome.splits)
qed

lemma guard_events:
  assumes "PHYS_BASE \<le> p"
  shows "fst (exec m p st) = []" "fst (create m p n st) = []" "fst (remove m p st) = []"
    "fst (sys_open m p st) = []" "fst (sys_write m fd p n st) = []"
  using assms by (simp_all add: exec_def create_def remove_def sys_open_def sys_write_def)

subsection \<open>The calls on the concrete machine\<close>

lemma demo_mem_hi:
  "mem demo 0xC0281100 = Some 0x68" "mem demo 0xC0281101 = Some 0x69"
  "mem demo 0xC0281102 = Some 0"
  by (simp_all add: page_defs demo_defs)

lemma demo_strlbond_hi_page:
  "strlbond demo (scratch_page demo 0xC0290000) 0x08048100 4096 =
   ([Translate 0x08048100,
     Load 0xC0281100, Load 0xC0281101, Load 0xC0281102,
     Load 0xC0281100, Load 0xC0281101, Load 0xC0281102,
     Load 0xC0281100, Load 0xC0281101, Load 0xC0281102,
     Load 0xC0281100, Load 0xC0281101],
    Returned \<lparr>base = 0xC0290000, bytes = (fresh_page demo)(0 := 0x68, 1 := 0x69, 2 := 0)\<rparr>)"
  by (simp add: strlbond_def strlcpy_def scratch_page_def demo_vtop demo_sob demo_strlen
      demo_mem_hi eval_simps PGSIZE_def)

lemma demo_strlbond_hi_3:
  "strlbond demo (scratch_page demo 0xC0290000) 0x08048100 3 =
   ([Translate 0x08048100,
     Load 0xC0281100, Load 0xC0281101, Load 0xC0281102,
     Load 0xC0281100, Load 0xC0281101, Load 0xC0281102,
     Load 0xC0281100, Load 0xC0281101, Load 0xC0281102,
     Load 0xC0281100, Load 0xC0281101],
    Returned \<lparr>base = 0xC0290000, bytes = (fresh_page demo)(0 := 0x68, 1 := 0x69, 2 := 0)\<rparr>)"
  by (simp add: strlbond_def strlcpy_def scratch_page_def demo_vtop demo_sob demo_strlen
      demo_mem_hi eval_simps PGSIZE_def)

lemma demo_collaborators:
  "filesys_open demo name = 0xC0109000" "calloc_succeeds demo"
  by (simp_all add: demo_def)

lemma demo_sys_open:
  "sys_open demo 0x08048100 demo_state =
   ([PallocGet 0xC0290000, Translate 0x08048100,
     Load 0xC0281100, Load 0xC0281101, Load 0xC0281102,
     Load 0xC0281100, Load 0xC0281101, Load 0xC0281102,
     Load 0xC0281100, Load 0xC0281101, Load 0xC0281102,
     Load 0xC0281100, Load 0xC0281101,
     PallocFree 0xC0290000],
    Returned (3, \<lparr>kernel_pool = [0xC0290000, 0xC0291000], lastfd = 3,
                   open_list = [(3, 0xC0109000)]\<rparr>))"
  by (simp add: sys_open_def demo_state_def palloc_get_page_def palloc_free_page_def
      demo_strlbond_hi_page demo_collaborators eval_simps PHYS_BASE_def PGSIZE_def)

lemma demo_write_loop:
  "write_loop demo 1 (scratch_page demo 0xC0290000) 0x08048100 2 0 =
   ([Translate 0x08048100,
     Load 0xC0281100, Load 0xC0281101, Load 0xC0281102,
     Load 0xC0281100, Load 0xC0281101, Load 0xC0281102,
     Load 0xC0281100, Load 0xC0281101, Load 0xC0281102,
     Load 0xC0281100, Load 0xC0281101,
     Putbuf [0x68, 0x69]], Returned 2)"
proof -
  have loop0: "write_loop demo 1 b 0x08048100 0 2 = ([], Returned 2)" for b
    by (subst write_loop.simps) (simp add: ret_def)
  have upt: "[0..<2] = [0, Suc 0]" "[Suc 0..<2] = [Suc 0]"
    by (simp_all add: upt_rec numeral_2_eq_2)
  show ?thesis
    by (subst write_loop.simps)
      (simp add: demo_strlbond_hi_3 loop0 eval_simps PGSIZE_def STDOUT_FILENO_def upt)
qed

lemma demo_sys_write:
  "sys_write demo 1 0x08048100 2 demo_state =
   ([PallocGet 0xC0290000, Translate 0x08048100,
     Load 0xC0281100, Load 0xC0281101, Load 0xC0281102,
     Load 0xC0281100, Load 0xC0281101, Load 0xC0281102,
     Load 0xC0281100, Load 0xC0281101, Load 0xC0281102,
     Load 0xC0281100, Load 0xC0281101,
     Putbuf [0x68, 0x69],
     PallocFree 0xC0290000],
    Returned (2, demo_state))"
  by (simp add: sys_write_def demo_state_def palloc_get_page_def palloc_free_page_def
      demo_write_loop eval_simps PHYS_BASE_def)

lemma demo_services:
  "process_execute demo cmd = 3" "get_thread_by_tid demo tid"
  "filesys_create demo name k" "filesys_remove demo name"
  by (simp_all add: demo_def)

lemma crowded_services:
  "process_execute crowded cmd = 3" "get_thread_by_tid crowded tid"
  "filesys_create crowded name k" "filesys_remove crowded name"
  "filesys_open crowded name = 0xC0109000" "calloc_succeeds crowded"
  by (simp_all add: crowded_def demo_def)

lemma demo_args_write:
  "arg demo 0xC0280F00 0 =
     ([Load 0xC0280F00, Load 0xC0280F01, Load 0xC0280F02, Load 0xC0280F03], Returned 9)"
  "arg demo 0xC0280F00 (Suc 0) =
     ([Load 0xC0280F04, Load 0xC0280F05, Load 0xC0280F06, Load 0xC0280F07], Returned 1)"
  "arg demo 0xC0280F00 2 =
     ([Load 0xC0280F08, Load 0xC0280F09, Load 0xC0280F0A, Load 0xC0280F0B], Returned 0x08048100)"
  "arg demo 0xC0280F00 3 =
     ([Load 0xC0280F0C, Load 0xC0280F0D, Load 0xC0280F0E, Load 0xC0280F0F], Returned 2)"
  by (simp_all add: arg_def load32_def eval_simps page_defs demo_defs)

lemma demo_args_exec:
  "arg demo 0xC0280F20 0 =
     ([Load 0xC0280F20, Load 0xC0280F21, Load 0xC0280F22, Load 0xC0280F23], Returned 2)"
  "arg demo 0xC0280F20 (Suc 0) =
     ([Load 0xC0280F24, Load 0xC0280F25, Load 0xC0280F26, Load 0xC0280F27], Returned 0xC0000000)"
  by (simp_all add: arg_def load32_def eval_simps page_defs demo_defs)



lemmas sys_numbers =
  SYS_HALT_def SYS_EXIT_def SYS_EXEC_def SYS_WAIT_def SYS_CREATE_def SYS_REMOVE_def
  SYS_OPEN_def SYS_FILESIZE_def SYS_READ_def SYS_WRITE_def SYS_SEEK_def SYS_TELL_def
  SYS_CLOSE_def SYS_MMAP_def SYS_MUNMAP_def SYS_CHDIR_def SYS_MKDIR_def SYS_READDIR_def
  SYS_ISDIR_def SYS_INUMBER_def










subsection \<open>Claims about the system calls\<close>

text \<open>
  Claim C4 fails on the code. The process calls \<open>write (1, "hi", 2)\<close>: the two bytes go to
  the console and \<open>write\<close> returns 2, and the dispatcher leaves \<open>eax\<close> as it was at the
  trap (\<open>0xAA\<close> here), where every other case with a result assigns it to \<open>eax\<close>.
\<close>

theorem C4_write_result_not_stored:
  "sys_write demo 1 0x08048100 2 demo_state =
   ([PallocGet 0xC0290000, Translate 0x08048100,
     Load 0xC0281100, Load 0xC0281101, Load 0xC0281102,
     Load 0xC0281100, Load 0xC0281101, Load 0xC0281102,
     Load 0xC0281100, Load 0xC0281101, Load 0xC0281102,
     Load 0xC0281100, Load 0xC0281101,
     Putbuf [0x68, 0x69],
     PallocFree 0xC0290000],
    Returned (2, demo_state)) \<and>
   syscall_handler demo \<lparr>esp = 0xBFFFFF00, eax = 0xAA\<rparr> demo_state =
   ([Translate 0xBFFFFF00,
     Load 0xC0280F00, Load 0xC0280F01, Load 0xC0280F02, Load 0xC0280F03,
     Load 0xC0280F04, Load 0xC0280F05, Load 0xC0280F06, Load 0xC0280F07,
     Load 0xC0280F08, Load 0xC0280F09, Load 0xC0280F0A, Load 0xC0280F0B,
     Load 0xC0280F0C, Load 0xC0280F0D, Load 0xC0280F0E, Load 0xC0280F0F,
     PallocGet 0xC0290000, Translate 0x08048100,
     Load 0xC0281100, Load 0xC0281101, Load 0xC0281102,
     Load 0xC0281100, Load 0xC0281101, Load 0xC0281102,
     Load 0xC0281100, Load 0xC0281101, Load 0xC0281102,
     Load 0xC0281100, Load 0xC0281101,
     Putbuf [0x68, 0x69],
     PallocFree 0xC0290000],
    Returned (\<lparr>esp = 0xBFFFFF00, eax = 0xAA\<rparr>, demo_state))"
  by (simp add: syscall_handler_def demo_vtop demo_args_write demo_sys_write sys_numbers
      eval_simps PHYS_BASE_def)

text \<open>
  Claim C1 as stated fails. The process calls \<open>exec\<close> with the pointer \<open>0xC0000000\<close>, the
  user/kernel boundary itself: the call returns, with the in-band value -1 in \<open>eax\<close>, and
  the process goes on.
\<close>

theorem C1_counterexample:
  "exec demo 0xC0000000 demo_state = ([], Returned (- 1, demo_state)) \<and>
   syscall_handler demo \<lparr>esp = 0xBFFFFF20, eax = 0xAA\<rparr> demo_state =
   ([Translate 0xBFFFFF20,
     Load 0xC0280F20, Load 0xC0280F21, Load 0xC0280F22, Load 0xC0280F23,
     Load 0xC0280F24, Load 0xC0280F25, Load 0xC0280F26, Load 0xC0280F27],
    Returned (\<lparr>esp = 0xBFFFFF20, eax = 0xFFFFFFFF\<rparr>, demo_state))"
  by (simp add: syscall_handler_def set_eax_def exec_def demo_vtop demo_args_exec sys_numbers
      eval_simps PHYS_BASE_def)

text \<open>
  Claim C1, as amended. A pointer argument at or above the user/kernel boundary does not end
  the process: \<open>exec\<close>, \<open>open\<close>, \<open>read\<close> and \<open>write\<close> return the in-band value -1,
  \<open>create\<close> and \<open>remove\<close> return false, and none of them takes a page, calls the
  translator or reads through the pointer.
\<close>

theorem C1_invalid_pointers:
  "PHYS_BASE \<le> p
      \<longrightarrow> exec m p st = ([], Returned (- 1, st)) \<and>
          sys_open m p st = ([], Returned (- 1, st)) \<and>
          read fd p n st = ([], Returned (- 1, st)) \<and>
          sys_write m fd p n st = ([], Returned (- 1, st)) \<and>
          create m p n st = ([], Returned (False, st)) \<and>
          remove m p st = ([], Returned (False, st))"
  by (simp add: exec_def sys_open_def read_def sys_write_def create_def remove_def ret_def)

theorem C1_invalid_pointers_witness:
  "PHYS_BASE \<le> 0xC0000000 \<and>
   exec demo 0xC0000000 demo_state = ([], Returned (- 1, demo_state)) \<and>
   sys_open demo 0xC0000000 demo_state = ([], Returned (- 1, demo_state)) \<and>
   read 0 0xC0000000 2 demo_state = ([], Returned (- 1, demo_state)) \<and>
   sys_write demo 1 0xC0000000 2 demo_state = ([], Returned (- 1, demo_state)) \<and>
   create demo 0xC0000000 2 demo_state = ([], Returned (False, demo_state)) \<and>
   remove demo 0xC0000000 demo_state = ([], Returned (False, demo_state))"
proof -
  have h: "PHYS_BASE \<le> 0xC0000000"
    by (simp add: PHYS_BASE_def)
  note c1 = C1_invalid_pointers [where m = demo and st = demo_state and p = "0xC0000000"
      and n = 2]
  from c1 [where fd = 0] h have r: "read 0 0xC0000000 2 demo_state = ([], Returned (- 1, demo_state))"
    by blast
  from c1 [where fd = 1] h have "exec demo 0xC0000000 demo_state = ([], Returned (- 1, demo_state))"
    "sys_open demo 0xC0000000 demo_state = ([], Returned (- 1, demo_state))"
    "sys_write demo 1 0xC0000000 2 demo_state = ([], Returned (- 1, demo_state))"
    "create demo 0xC0000000 2 demo_state = ([], Returned (False, demo_state))"
    "remove demo 0xC0000000 demo_state = ([], Returned (False, demo_state))"
    by blast+
  with h r show ?thesis by simp
qed




text \<open>
  Claim C10. In a kernel pool that holds no null page, each of \<open>exec\<close>, \<open>open\<close>, \<open>write\<close>,
  \<open>create\<close> and \<open>remove\<close>, called with a pointer below the user/kernel boundary, calls
  \<^verbatim>\<open>palloc_get_page\<close> once, before anything else, whatever the run does later; the
  \<^verbatim>\<open>palloc_free_page\<close> of the same page follows exactly when the copy into the page (the
  call of \<^verbatim>\<open>strlbond\<close>, or the loop of \<open>write\<close>) returns, and the run takes and gives back
  nothing else. When the copy returns, the call returns, with the state it found but for the
  descriptor that \<open>open\<close> adds (\<open>exec\<close> stops at \<^verbatim>\<open>ASSERT (child)\<close>, after the page has
  been given back, when there is no child); when the copy stops, the call stops with it. Every
  call that returns leaves the pool as it found it. With a pointer at or above the boundary the
  call returns before the acquisition, and no page is taken.
\<close>

theorem C10_scratch_page_released:
  assumes "list_all (\<lambda>q. q \<noteq> NULL) (kernel_pool st)"
    and "pg = fst (palloc_get_page (kernel_pool st))"
    and "copy = strlbond m (scratch_page m pg) p PGSIZE"
    and "loop = write_loop m fd (scratch_page m pg) p n 0"
  shows "palloc_events (fst (exec m p st)) =
           (if PHYS_BASE \<le> p then []
            else PallocGet pg # (case snd copy of Returned buf \<Rightarrow> [PallocFree pg]
                                 | Stopped x \<Rightarrow> [])) \<and>
         palloc_events (fst (sys_open m p st)) =
           (if PHYS_BASE \<le> p then []
            else PallocGet pg # (case snd copy of Returned buf \<Rightarrow> [PallocFree pg]
                                 | Stopped x \<Rightarrow> [])) \<and>
         palloc_events (fst (sys_write m fd p n st)) =
           (if PHYS_BASE \<le> p then []
            else PallocGet pg # (case snd loop of Returned wrote \<Rightarrow> [PallocFree pg]
                                 | Stopped x \<Rightarrow> [])) \<and>
         palloc_events (fst (create m p n st)) =
           (if PHYS_BASE \<le> p then []
            else PallocGet pg # (case snd copy of Returned buf \<Rightarrow> [PallocFree pg]
                                 | Stopped x \<Rightarrow> [])) \<and>
         palloc_events (fst (remove m p st)) =
           (if PHYS_BASE \<le> p then []
            else PallocGet pg # (case snd copy of Returned buf \<Rightarrow> [PallocFree pg]
                                 | Stopped x \<Rightarrow> [])) \<and>
         (\<not> PHYS_BASE \<le> p
            \<longrightarrow> snd (exec m p st) =
                  (case snd copy of
                     Returned buf \<Rightarrow>
                       if get_thread_by_tid m (process_execute m (cstring buf))
                       then Returned (process_execute m (cstring buf), st)
                       else Stopped (Panic ''assertion `child' failed.'')
                   | Stopped x \<Rightarrow> Stopped x) \<and>
                snd (sys_open m p st) =
                  (case snd copy of
                     Returned buf \<Rightarrow>
                       if filesys_open m (cstring buf) = NULL \<or> \<not> calloc_succeeds m
                       then Returned (- 1, st)
                       else Returned (lastfd st + 1,
                              st\<lparr>lastfd := lastfd st + 1,
                                 open_list := open_list st @
                                   [(lastfd st + 1, filesys_open m (cstring buf))]\<rparr>)
                   | Stopped x \<Rightarrow> Stopped x) \<and>
                snd (sys_write m fd p n st) =
                  (case snd loop of
                     Returned wrote \<Rightarrow> Returned (wrote, st)
                   | Stopped x \<Rightarrow> Stopped x) \<and>
                snd (create m p n st) =
                  (case snd copy of
                     Returned buf \<Rightarrow> Returned (filesys_create m (cstring buf) n, st)
                   | Stopped x \<Rightarrow> Stopped x) \<and>
                snd (remove m p st) =
                  (case snd copy of
                     Returned buf \<Rightarrow> Returned (filesys_remove m (cstring buf), st)
                   | Stopped x \<Rightarrow> Stopped x)) \<and>
         (snd (exec m p st) = Returned (v1, st1)
            \<longrightarrow> kernel_pool st1 = kernel_pool st \<and>
                length (kernel_pool st1) = length (kernel_pool st)) \<and>
         (snd (sys_open m p st) = Returned (v2, st2)
            \<longrightarrow> kernel_pool st2 = kernel_pool st \<and>
                length (kernel_pool st2) = length (kernel_pool st)) \<and>
         (snd (sys_write m fd p n st) = Returned (v3, st3)
            \<longrightarrow> kernel_pool st3 = kernel_pool st \<and>
                length (kernel_pool st3) = length (kernel_pool st)) \<and>
         (snd (create m p n st) = Returned (b4, st4)
            \<longrightarrow> kernel_pool st4 = kernel_pool st \<and>
                length (kernel_pool st4) = length (kernel_pool st)) \<and>
         (snd (remove m p st) = Returned (b5, st5)
            \<longrightarrow> kernel_pool st5 = kernel_pool st \<and>
                length (kernel_pool st5) = length (kernel_pool st))"
proof -
  note pool = assms(1) and pg = assms(2)
  have e1: "palloc_events (fst (exec m p st)) =
           (if PHYS_BASE \<le> p then []
            else PallocGet pg # (case snd copy of Returned buf \<Rightarrow> [PallocFree pg]
                                 | Stopped x \<Rightarrow> []))"
    using exec_scratch(1) [OF pool pg, of p m] guard_events(1) [of p m st]
    by (simp add: assms(3))
  have e2: "palloc_events (fst (sys_open m p st)) =
           (if PHYS_BASE \<le> p then []
            else PallocGet pg # (case snd copy of Returned buf \<Rightarrow> [PallocFree pg]
                                 | Stopped x \<Rightarrow> []))"
    using sys_open_scratch(1) [OF pool pg, of p m] guard_events(4) [of p m st]
    by (simp add: assms(3))
  have e3: "palloc_events (fst (sys_write m fd p n st)) =
           (if PHYS_BASE \<le> p then []
            else PallocGet pg # (case snd loop of Returned wrote \<Rightarrow> [PallocFree pg]
                                 | Stopped x \<Rightarrow> []))"
    using sys_write_scratch(1) [OF pool pg, of p m fd n] guard_events(5) [of p m fd n st]
    by (simp add: assms(4))
  have e4: "palloc_events (fst (create m p n st)) =
           (if PHYS_BASE \<le> p then []
            else PallocGet pg # (case snd copy of Returned buf \<Rightarrow> [PallocFree pg]
                                 | Stopped x \<Rightarrow> []))"
    using create_scratch(1) [OF pool pg, of p m n] guard_events(2) [of p m n st]
    by (simp add: assms(3))
  have e5: "palloc_events (fst (remove m p st)) =
           (if PHYS_BASE \<le> p then []
            else PallocGet pg # (case snd copy of Returned buf \<Rightarrow> [PallocFree pg]
                                 | Stopped x \<Rightarrow> []))"
    using remove_scratch(1) [OF pool pg, of p m] guard_events(3) [of p m st]
    by (simp add: assms(3))
  have o: "\<not> PHYS_BASE \<le> p
            \<longrightarrow> snd (exec m p st) =
                  (case snd copy of
                     Returned buf \<Rightarrow>
                       if get_thread_by_tid m (process_execute m (cstring buf))
                       then Returned (process_execute m (cstring buf), st)
                       else Stopped (Panic ''assertion `child' failed.'')
                   | Stopped x \<Rightarrow> Stopped x) \<and>
                snd (sys_open m p st) =
                  (case snd copy of
                     Returned buf \<Rightarrow>
                       if filesys_open m (cstring buf) = NULL \<or> \<not> calloc_succeeds m
                       then Returned (- 1, st)
                       else Returned (lastfd st + 1,
                              st\<lparr>lastfd := lastfd st + 1,
                                 open_list := open_list st @
                                   [(lastfd st + 1, filesys_open m (cstring buf))]\<rparr>)
                   | Stopped x \<Rightarrow> Stopped x) \<and>
                snd (sys_write m fd p n st) =
                  (case snd loop of
                     Returned wrote \<Rightarrow> Returned (wrote, st)
                   | Stopped x \<Rightarrow> Stopped x) \<and>
                snd (create m p n st) =
                  (case snd copy of
                     Returned buf \<Rightarrow> Returned (filesys_create m (cstring buf) n, st)
                   | Stopped x \<Rightarrow> Stopped x) \<and>
                snd (remove m p st) =
                  (case snd copy of
                     Returned buf \<Rightarrow> Returned (filesys_remove m (cstring buf), st)
                   | Stopped x \<Rightarrow> Stopped x)"
    unfolding assms(3,4)
    by (intro impI conjI exec_scratch(2) sys_open_scratch(2) sys_write_scratch(2)
        create_scratch(2) remove_scratch(2) pool pg)
  have p1: "snd (exec m p st) = Returned (v1, st1)
            \<longrightarrow> kernel_pool st1 = kernel_pool st \<and>
                length (kernel_pool st1) = length (kernel_pool st)"
    using exec_pool [OF pool, of m p v1 st1] by simp
  have p2: "snd (sys_open m p st) = Returned (v2, st2)
            \<longrightarrow> kernel_pool st2 = kernel_pool st \<and>
                length (kernel_pool st2) = length (kernel_pool st)"
    using sys_open_pool [OF pool, of m p v2 st2] by simp
  have p3: "snd (sys_write m fd p n st) = Returned (v3, st3)
            \<longrightarrow> kernel_pool st3 = kernel_pool st \<and>
                length (kernel_pool st3) = length (kernel_pool st)"
    using sys_write_pool [OF pool, of m fd p n v3 st3] by simp
  have p4: "snd (create m p n st) = Returned (b4, st4)
            \<longrightarrow> kernel_pool st4 = kernel_pool st \<and>
                length (kernel_pool st4) = length (kernel_pool st)"
    using create_pool [OF pool, of m p n b4 st4] by simp
  have p5: "snd (remove m p st) = Returned (b5, st5)
            \<longrightarrow> kernel_pool st5 = kernel_pool st \<and>
                length (kernel_pool st5) = length (kernel_pool st)"
    using remove_pool [OF pool, of m p b5 st5] by simp
  show ?thesis
    by (intro conjI e1 e2 e3 e4 e5 o p1 p2 p3 p4 p5)
qed

theorem C10_scratch_page_released_witness:
  "list_all (\<lambda>q. q \<noteq> NULL) (kernel_pool demo_state) \<and>
   kernel_pool demo_state = [0xC0290000, 0xC0291000] \<and>
   0xC0290000 = fst (palloc_get_page (kernel_pool demo_state)) \<and>
   \<not> PHYS_BASE \<le> 0x08048100 \<and>
   snd (strlbond demo (scratch_page demo 0xC0290000) 0x08048100 PGSIZE) =
     Returned \<lparr>base = 0xC0290000, bytes = (fresh_page demo)(0 := 0x68, 1 := 0x69, 2 := 0)\<rparr> \<and>
   snd (write_loop demo 1 (scratch_page demo 0xC0290000) 0x08048100 2 0) = Returned 2 \<and>
   palloc_events (fst (exec demo 0x08048100 demo_state)) =
     [PallocGet 0xC0290000, PallocFree 0xC0290000] \<and>
   snd (exec demo 0x08048100 demo_state) = Returned (3, demo_state) \<and>
   palloc_events (fst (sys_open demo 0x08048100 demo_state)) =
     [PallocGet 0xC0290000, PallocFree 0xC0290000] \<and>
   snd (sys_open demo 0x08048100 demo_state) =
     Returned (3, \<lparr>kernel_pool = [0xC0290000, 0xC0291000], lastfd = 3,
                    open_list = [(3, 0xC0109000)]\<rparr>) \<and>
   kernel_pool \<lparr>kernel_pool = [0xC0290000, 0xC0291000], lastfd = 3,
                open_list = [(3, 0xC0109000)]\<rparr> = kernel_pool demo_state \<and>
   palloc_events (fst (sys_write demo 1 0x08048100 2 demo_state)) =
     [PallocGet 0xC0290000, PallocFree 0xC0290000] \<and>
   snd (sys_write demo 1 0x08048100 2 demo_state) = Returned (2, demo_state) \<and>
   palloc_events (fst (create demo 0x08048100 2 demo_state)) =
     [PallocGet 0xC0290000, PallocFree 0xC0290000] \<and>
   snd (create demo 0x08048100 2 demo_state) = Returned (True, demo_state) \<and>
   palloc_events (fst (remove demo 0x08048100 demo_state)) =
     [PallocGet 0xC0290000, PallocFree 0xC0290000] \<and>
   snd (remove demo 0x08048100 demo_state) = Returned (True, demo_state) \<and>
   \<not> PHYS_BASE \<le> 0x0804AFFE \<and>
   snd (strlbond crowded (scratch_page crowded 0xC0290000) 0x0804AFFE PGSIZE) =
     Stopped (Panic ''assertion `!str_over_boundary (s)' failed.'') \<and>
   palloc_events (fst (create crowded 0x0804AFFE 0 demo_state)) = [PallocGet 0xC0290000] \<and>
   snd (create crowded 0x0804AFFE 0 demo_state) =
     Stopped (Panic ''assertion `!str_over_boundary (s)' failed.'') \<and>
   PHYS_BASE \<le> 0xC0000000 \<and>
   palloc_events (fst (exec demo 0xC0000000 demo_state)) = []"
proof -
  let ?st2 = "\<lparr>kernel_pool = [0xC0290000, 0xC0291000], lastfd = 3,
               open_list = [(3, 0xC0109000)]\<rparr>"
  let ?hi = "\<lparr>base = 0xC0290000, bytes = (fresh_page demo)(0 := 0x68, 1 := 0x69, 2 := 0)\<rparr>"
  have pool: "list_all (\<lambda>q. q \<noteq> NULL) (kernel_pool demo_state)"
    and pool': "kernel_pool demo_state = [0xC0290000, 0xC0291000]"
    by (simp_all add: demo_state_def)
  have page: "0xC0290000 = fst (palloc_get_page (kernel_pool demo_state))"
    by (simp add: demo_state_def palloc_get_page_def)
  have user: "\<not> PHYS_BASE \<le> 0x08048100" "\<not> PHYS_BASE \<le> 0x0804AFFE"
    and high: "PHYS_BASE \<le> 0xC0000000"
    by (simp_all add: PHYS_BASE_def)
  have copy: "snd (strlbond demo (scratch_page demo 0xC0290000) 0x08048100 PGSIZE) = Returned ?hi"
    by (simp add: PGSIZE_def demo_strlbond_hi_page)
  have loop: "snd (write_loop demo 1 (scratch_page demo 0xC0290000) 0x08048100 2 0) = Returned 2"
    by (simp add: demo_write_loop)
  have stop: "snd (strlbond crowded (scratch_page crowded 0xC0290000) 0x0804AFFE PGSIZE) =
     Stopped (Panic ''assertion `!str_over_boundary (s)' failed.'')"
    by (rule crowded_strlbond_stops)
  have fd: "lastfd demo_state = 2" "open_list demo_state = []"
    by (simp_all add: demo_state_def)
  have st2: "demo_state\<lparr>lastfd := 3, open_list := [(3, 0xC0109000)]\<rparr> = ?st2"
    by (simp add: demo_state_def)
  note c = C10_scratch_page_released [OF pool page refl refl, where m = demo
      and p = "0x08048100" and fd = 1 and n = 2]
  from c user(1) copy
  have e1: "palloc_events (fst (exec demo 0x08048100 demo_state)) =
     [PallocGet 0xC0290000, PallocFree 0xC0290000]"
    by simp
  from c user(1) copy
  have o1: "snd (exec demo 0x08048100 demo_state) = Returned (3, demo_state)"
    by (simp add: demo_services)
  from c user(1) copy
  have e2: "palloc_events (fst (sys_open demo 0x08048100 demo_state)) =
     [PallocGet 0xC0290000, PallocFree 0xC0290000]"
    by simp
  from c user(1) copy
  have o2: "snd (sys_open demo 0x08048100 demo_state) = Returned (3, ?st2)"
    by (simp add: demo_collaborators fd st2)
  have k2: "kernel_pool ?st2 = kernel_pool demo_state"
    using c [where ?v2.0 = 3 and ?st2.0 = ?st2] o2 by blast
  from c user(1) loop
  have e3: "palloc_events (fst (sys_write demo 1 0x08048100 2 demo_state)) =
     [PallocGet 0xC0290000, PallocFree 0xC0290000]"
    by simp
  from c user(1) loop
  have o3: "snd (sys_write demo 1 0x08048100 2 demo_state) = Returned (2, demo_state)"
    by simp
  from c user(1) copy
  have e4: "palloc_events (fst (create demo 0x08048100 2 demo_state)) =
     [PallocGet 0xC0290000, PallocFree 0xC0290000]"
    by simp
  from c user(1) copy
  have o4: "snd (create demo 0x08048100 2 demo_state) = Returned (True, demo_state)"
    by (simp add: demo_services)
  from c user(1) copy
  have e5: "palloc_events (fst (remove demo 0x08048100 demo_state)) =
     [PallocGet 0xC0290000, PallocFree 0xC0290000]"
    by simp
  from c user(1) copy
  have o5: "snd (remove demo 0x08048100 demo_state) = Returned (True, demo_state)"
    by (simp add: demo_services)
  note d = C10_scratch_page_released [OF pool page refl refl, where m = crowded
      and p = "0x0804AFFE" and fd = 1 and n = 0]
  from d user(2) stop
  have e6: "palloc_events (fst (create crowded 0x0804AFFE 0 demo_state)) = [PallocGet 0xC0290000]"
    by simp
  from d user(2) stop
  have o6: "snd (create crowded 0x0804AFFE 0 demo_state) =
     Stopped (Panic ''assertion `!str_over_boundary (s)' failed.'')"
    by simp
  note g = C10_scratch_page_released [OF pool page refl refl, where m = demo
      and p = "0xC0000000" and fd = 1 and n = 2]
  from g high have e7: "palloc_events (fst (exec demo 0xC0000000 demo_state)) = []"
    by simp
  show ?thesis
    by (intro conjI pool pool' page user copy loop e1 o1 e2 o2 k2 e3 o3 e4 o4 e5 o5 stop e6 o6
        high e7)
qed

end
